theory Spec2Isabelle
  imports Complex_Main
begin

section \<open>The repository analysis pipeline of StackCompass\<close>

text \<open>
  The development embeds \<^verbatim>\<open>supabase/functions/analyze-repository/index.ts\<close>:
  the two text helpers \<^verbatim>\<open>cleanAiResponse\<close> and \<^verbatim>\<open>validateResponseFormat\<close>, and
  the handler of \<^verbatim>\<open>POST /analyze-repository\<close> with its file filter, its batch loop,
  its per-file retry loop, its score formula and its two writes to the record store.

  Conventions.
  \<^item> A JavaScript string is a \<open>string\<close>: a list of code units below 256. The
    character classes of the regular expressions are restricted to that range.
  \<^item> A JavaScript number that holds a count or a score is an \<open>int\<close> or a \<open>nat\<close>.
    The score formula divides and multiplies by 0.5, 0.2 and 0.3: there the model
    computes with exact rationals (\<open>rat\<close>), where the source computes with doubles.
  \<^item> Everything the handler awaits (the identity service, the record store, the
    repository host, the reviewer) is an input of the model, collected in the record
    \<open>world\<close>; a call that throws is a value of its result type.
  \<^item> Mutable accumulators are passed as explicit state.
\<close>

subsection \<open>Strings\<close>

text \<open>\<^verbatim>\<open>s.startsWith(p)\<close>, \<^verbatim>\<open>s.endsWith(p)\<close> and \<^verbatim>\<open>s.includes(p)\<close>.\<close>

fun startsWith :: "string \<Rightarrow> string \<Rightarrow> bool" where
  "startsWith s [] = True"
| "startsWith [] (p # ps) = False"
| "startsWith (c # cs) (p # ps) = (c = p \<and> startsWith cs ps)"

definition endsWith :: "string \<Rightarrow> string \<Rightarrow> bool" where
  "endsWith s p = startsWith (rev s) (rev p)"

fun includesStr :: "string \<Rightarrow> string \<Rightarrow> bool" where
  "includesStr [] p = startsWith [] p"
| "includesStr (c # cs) p = (startsWith (c # cs) p \<or> includesStr cs p)"

text \<open>
  The class \<^verbatim>\<open>\s\<close> of a JavaScript regular expression, below code unit 256: tab, line
  feed, vertical tab, form feed, carriage return, space and no-break space. The line
  terminators that \<^verbatim>\<open>^\<close> and \<^verbatim>\<open>$\<close> see under the flag \<^verbatim>\<open>m\<close> are line feed and carriage
  return. \<^verbatim>\<open>\d\<close> is an ASCII digit.
\<close>

definition isSpace :: "char \<Rightarrow> bool" where
  "isSpace c = (c \<in> {CHR 0x09, CHR 0x0A, CHR 0x0B, CHR 0x0C, CHR 0x0D, CHR 0x20, CHR 0xA0})"

definition isLineTerm :: "char \<Rightarrow> bool" where
  "isLineTerm c = (c = CHR 0x0A \<or> c = CHR 0x0D)"

definition isDigit :: "char \<Rightarrow> bool" where
  "isDigit c = (c \<in> set ''0123456789'')"

text \<open>
  Under the flag \<^verbatim>\<open>i\<close> (without \<^verbatim>\<open>u\<close>) two code units match when their upper-case
  forms agree; a code unit from 128 on never folds to an ASCII letter, so against the
  ASCII patterns of this program only the ASCII letters fold.
\<close>

definition upcase :: "char \<Rightarrow> char" where
  "upcase c = (let n = (of_char c :: nat) in if 97 \<le> n \<and> n \<le> 122 then char_of (n - 32) else c)"

fun startsWithCI :: "string \<Rightarrow> string \<Rightarrow> bool" where
  "startsWithCI s [] = True"
| "startsWithCI [] (p # ps) = False"
| "startsWithCI (c # cs) (p # ps) = (upcase c = upcase p \<and> startsWithCI cs ps)"

subsection \<open>Cleaning and validating the reviewer's text\<close>

text \<open>
  \<^verbatim>\<open>function cleanAiResponse(text: string): string {
    let cleaned = text.replace(/\*/g, '');
    cleaned = cleaned.replace(/#+\s*/g, '');
    cleaned = cleaned.replace(/^\s*[-*]\s+/gm, '');
    cleaned = cleaned.replace(/^\s*|\s*$/gm, '');
    cleaned = cleaned.replace(/^\s*(\d+)\.\s+/gm, '$1. ');
    return cleaned;
  }\<close>
  Each \<^verbatim>\<open>replace\<close> with a global pattern scans from the left: at the first position
  from the last index on where the pattern matches, the match is replaced and the
  scan resumes at its end (one code unit further when the match was empty); the code
  units between matches are copied. Each scan below takes the rest of the text from
  the current position; the scans of the patterns with \<^verbatim>\<open>^\<close> also take \<open>bol\<close>, true
  when the current position is the start of the text or follows a line terminator.
\<close>

text \<open>\<^verbatim>\<open>/\*/g\<close>: every asterisk is a match.\<close>

definition removeAsterisks :: "string \<Rightarrow> string" where
  "removeAsterisks t = filter (\<lambda>c. c \<noteq> CHR ''*'') t"

text \<open>
  \<^verbatim>\<open>/#+\s*/g\<close>: a match starts at a hash, and takes the longest run of hashes and
  then the longest run of white space.
\<close>

function removeHeaders :: "string \<Rightarrow> string" where
  "removeHeaders [] = []"
| "removeHeaders (c # cs) =
     (if c = CHR ''#''
      then removeHeaders (dropWhile isSpace (dropWhile (\<lambda>d. d = CHR ''#'') cs))
      else c # removeHeaders cs)"
  by pat_completeness auto
termination
  by (relation "measure length") (auto intro: le_imp_less_Suc order_trans [OF length_dropWhile_le])

text \<open>
  \<^verbatim>\<open>/^\s*[-*]\s+/gm\<close>: a match starts at the start of a line, takes the longest run of
  white space (which may cross lines), needs a dash or an asterisk there, and then
  takes the longest run of white space, which must not be empty. The classes are
  disjoint, so backtracking finds no other match.
\<close>

definition listMarkerMatch :: "string \<Rightarrow> (string \<times> string) option" where
  "listMarkerMatch r =
     (case dropWhile isSpace r of
        [] \<Rightarrow> None
      | d # r' \<Rightarrow>
          if (d = CHR ''-'' \<or> d = CHR ''*'') \<and> takeWhile isSpace r' \<noteq> []
          then Some (takeWhile isSpace r', dropWhile isSpace r')
          else None)"

function removeListMarkers :: "bool \<Rightarrow> string \<Rightarrow> string" where
  "removeListMarkers bol [] = []"
| "removeListMarkers bol (c # cs) =
     (case (if bol then listMarkerMatch (c # cs) else None) of
        Some (w, rest) \<Rightarrow> removeListMarkers (isLineTerm (last w)) rest
      | None \<Rightarrow> c # removeListMarkers (isLineTerm c) cs)"
  by pat_completeness auto
termination
proof (relation "measure (\<lambda>(bol, r). length r)")
  show "wf (measure (\<lambda>(bol, r). length r))" by simp
next
  fix bol :: bool and c :: char and cs x y :: string and x2 :: "string \<times> string"
  assume *: "(if bol then listMarkerMatch (c # cs) else None) = Some x2" "(x, y) = x2"
  then have "listMarkerMatch (c # cs) = Some (x, y)" by (auto split: if_splits)
  then obtain d r' where "dropWhile isSpace (c # cs) = d # r'" "y = dropWhile isSpace r'"
    by (auto simp: listMarkerMatch_def split: list.splits if_splits)
  then have "length y \<le> length r'" "Suc (length r') = length (dropWhile isSpace (c # cs))"
    by (simp_all add: length_dropWhile_le)
  moreover have "length (dropWhile isSpace (c # cs)) \<le> length (c # cs)"
    by (rule length_dropWhile_le)
  ultimately show "((isLineTerm (last x), y), bol, c # cs) \<in> measure (\<lambda>(bol, r). length r)"
    by simp
next
  fix bol :: bool and c :: char and cs :: string
  show "((isLineTerm c, cs), bol, c # cs) \<in> measure (\<lambda>(bol, r). length r)" by simp
qed

text \<open>
  \<^verbatim>\<open>/^\s*|\s*$/gm\<close>. At the start of a line the first alternative matches the longest
  run of white space, which may be empty. Elsewhere the second alternative takes the
  longest run of white space and gives code units back until the end of a line is
  reached: the match ends at the end of the text, when the run reaches it, and
  otherwise before the last line terminator of the run; without one there is no
  match. \<open>trimEnd w\<close> is the length of that match inside the run \<open>w\<close>, when the run does
  not reach the end of the text. After an empty match the scan copies one code unit
  and moves on, as it does where there is no match.
\<close>

fun trimEnd :: "string \<Rightarrow> nat option" where
  "trimEnd [] = None"
| "trimEnd (c # w) =
     (case trimEnd w of
        Some k \<Rightarrow> Some (Suc k)
      | None \<Rightarrow> if isLineTerm c then Some 0 else None)"

definition trimMatch :: "bool \<Rightarrow> string \<Rightarrow> nat" where
  "trimMatch bol r =
     (let w = takeWhile isSpace r in
      if bol then length w
      else if dropWhile isSpace r = [] then length w
      else (case trimEnd w of Some k \<Rightarrow> k | None \<Rightarrow> 0))"

function trimLines :: "bool \<Rightarrow> string \<Rightarrow> string" where
  "trimLines bol [] = []"
| "trimLines bol (c # cs) =
     (let k = trimMatch bol (c # cs) in
      if k > 0 then trimLines (isLineTerm ((c # cs) ! (k - 1))) (drop k (c # cs))
      else c # trimLines (isLineTerm c) cs)"
  by pat_completeness auto
termination
  by (relation "measure (\<lambda>(bol, r). length r)") auto

text \<open>
  \<^verbatim>\<open>/^\s*(\d+)\.\s+/gm\<close> with the replacement \<^verbatim>\<open>'$1. '\<close>: at the start of a line, the
  longest run of white space, the longest run of digits (not empty), a full stop, and
  the longest run of white space (not empty); the match becomes the digits, a full
  stop and one space.
\<close>

definition numberedMatch :: "string \<Rightarrow> (string \<times> string \<times> string) option" where
  "numberedMatch r =
     (let r1 = dropWhile isSpace r; ds = takeWhile isDigit r1 in
      case dropWhile isDigit r1 of
        [] \<Rightarrow> None
      | d # r2 \<Rightarrow>
          if ds \<noteq> [] \<and> d = CHR ''.'' \<and> takeWhile isSpace r2 \<noteq> []
          then Some (ds, takeWhile isSpace r2, dropWhile isSpace r2)
          else None)"

function plainNumbers :: "bool \<Rightarrow> string \<Rightarrow> string" where
  "plainNumbers bol [] = []"
| "plainNumbers bol (c # cs) =
     (case (if bol then numberedMatch (c # cs) else None) of
        Some (ds, w, rest) \<Rightarrow> ds @ ''. '' @ plainNumbers (isLineTerm (last w)) rest
      | None \<Rightarrow> c # plainNumbers (isLineTerm c) cs)"
  by pat_completeness auto
termination
proof (relation "measure (\<lambda>(bol, r). length r)")
  show "wf (measure (\<lambda>(bol, r). length r))" by simp
next
  fix bol :: bool and c :: char and cs x y z :: string and x2 :: "string \<times> string \<times> string"
    and y2 :: "string \<times> string"
  assume *: "(if bol then numberedMatch (c # cs) else None) = Some x2" "(x, y2) = x2" "(y, z) = y2"
  then have "numberedMatch (c # cs) = Some (x, y, z)" by (auto split: if_splits)
  then obtain d r2 where d: "dropWhile isDigit (dropWhile isSpace (c # cs)) = d # r2"
      "z = dropWhile isSpace r2"
    by (auto simp: numberedMatch_def Let_def split: list.splits if_splits)
  have "length z \<le> length r2" using d by (simp add: length_dropWhile_le)
  moreover have "Suc (length r2) = length (dropWhile isDigit (dropWhile isSpace (c # cs)))"
    using d by simp
  moreover have "length (dropWhile isDigit (dropWhile isSpace (c # cs))) \<le> length (c # cs)"
    by (rule order_trans [OF length_dropWhile_le length_dropWhile_le])
  ultimately show "((isLineTerm (last y), z), bol, c # cs) \<in> measure (\<lambda>(bol, r). length r)"
    by simp
next
  fix bol :: bool and c :: char and cs :: string
  show "((isLineTerm c, cs), bol, c # cs) \<in> measure (\<lambda>(bol, r). length r)" by simp
qed

definition cleanAiResponse :: "string \<Rightarrow> string" where
  "cleanAiResponse text =
     plainNumbers True (trimLines True (removeListMarkers True (removeHeaders (removeAsterisks text))))"

text \<open>
  \<^verbatim>\<open>function validateResponseFormat(text: string): boolean {
    if (/[*#_\-]/.test(text)) return false;
    if (!text.includes('SCORE:') || !text.includes('TOP 5 ACTIONABLE RECOMMENDATIONS:')) return false;
    return true;
  }\<close>
\<close>

definition forbiddenChar :: "char \<Rightarrow> bool" where
  "forbiddenChar c = (c = CHR ''*'' \<or> c = CHR ''#'' \<or> c = CHR ''_'' \<or> c = CHR ''-'')"

definition validateResponseFormat :: "string \<Rightarrow> bool" where
  "validateResponseFormat text =
     (if list_ex forbiddenChar text then False
      else if \<not> includesStr text ''SCORE:'' \<or> \<not> includesStr text ''TOP 5 ACTIONABLE RECOMMENDATIONS:''
      then False
      else True)"

subsection \<open>Parsing the reviewer's text\<close>

text \<open>
  \<^verbatim>\<open>const scoreMatch = analysis.match(/SCORE:\s*(\d+)/i);
  const fileScore = scoreMatch ? Math.min(10, Math.max(1, parseInt(scoreMatch[1]))) : 7;\<close>
  \<open>scoreMatchAt r\<close> is the first group of a match that starts at the head of \<open>r\<close>;
  \<open>scoreMatch\<close> tries the positions from the left, as \<^verbatim>\<open>match\<close> does. \<^verbatim>\<open>parseInt\<close> reads
  a run of decimal digits; as the value is clamped to 10 at once, the exact integer
  stands for the double.
\<close>

definition scoreMatchAt :: "string \<Rightarrow> string option" where
  "scoreMatchAt r =
     (if startsWithCI r ''SCORE:''
      then (let ds = takeWhile isDigit (dropWhile isSpace (drop 6 r))
            in if ds = [] then None else Some ds)
      else None)"

fun scoreMatch :: "string \<Rightarrow> string option" where
  "scoreMatch [] = scoreMatchAt []"
| "scoreMatch (c # cs) =
     (case scoreMatchAt (c # cs) of Some ds \<Rightarrow> Some ds | None \<Rightarrow> scoreMatch cs)"

definition digitValue :: "char \<Rightarrow> int" where
  "digitValue c = int (of_char c) - 48"

definition parseInt :: "string \<Rightarrow> int" where
  "parseInt ds = foldl (\<lambda>a c. 10 * a + digitValue c) 0 ds"

definition fileScore :: "string \<Rightarrow> int" where
  "fileScore analysis =
     (case scoreMatch analysis of Some ds \<Rightarrow> min 10 (max 1 (parseInt ds)) | None \<Rightarrow> 7)"

text \<open>
  The three section patterns have one shape,
  \<^verbatim>\<open>/HEADER:\s*([^]*?)(?=OTHER HEADER:|...|$)/i\<close>: after the first occurrence of the
  header and the longest run of white space, the group takes as few code units as
  possible up to the next occurrence of one of the other headers, or the end of the
  text. \<open>sectionMatch header stops text\<close> is the group; \<^verbatim>\<open>trim\<close> removes white space
  at both ends.
\<close>

fun takeUntilHeader :: "string list \<Rightarrow> string \<Rightarrow> string" where
  "takeUntilHeader stops [] = []"
| "takeUntilHeader stops (c # cs) =
     (if list_ex (startsWithCI (c # cs)) stops then [] else c # takeUntilHeader stops cs)"

fun sectionMatch :: "string \<Rightarrow> string list \<Rightarrow> string \<Rightarrow> string option" where
  "sectionMatch header stops [] = (if header = [] then Some [] else None)"
| "sectionMatch header stops (c # cs) =
     (if startsWithCI (c # cs) header
      then Some (takeUntilHeader stops (dropWhile isSpace (drop (length header) (c # cs))))
      else sectionMatch header stops cs)"

definition trim :: "string \<Rightarrow> string" where
  "trim s = rev (dropWhile isSpace (rev (dropWhile isSpace s)))"

definition qualityIssuesMatch :: "string \<Rightarrow> string option" where
  "qualityIssuesMatch analysis =
     sectionMatch ''CODE QUALITY REVIEW:''
       [''ARCHITECTURE ANALYSIS:'', ''SECURITY REVIEW:'', ''TECHNICAL DEBT ASSESSMENT:'',
        ''TOP 5 ACTIONABLE RECOMMENDATIONS:''] analysis"

definition securityIssuesMatch :: "string \<Rightarrow> string option" where
  "securityIssuesMatch analysis =
     sectionMatch ''SECURITY REVIEW:''
       [''CODE QUALITY REVIEW:'', ''ARCHITECTURE ANALYSIS:'', ''TECHNICAL DEBT ASSESSMENT:'',
        ''TOP 5 ACTIONABLE RECOMMENDATIONS:''] analysis"

definition recommendationsMatch :: "string \<Rightarrow> string option" where
  "recommendationsMatch analysis =
     sectionMatch ''TOP 5 ACTIONABLE RECOMMENDATIONS:''
       [''CODE QUALITY REVIEW:'', ''ARCHITECTURE ANALYSIS:'', ''SECURITY REVIEW:'',
        ''TECHNICAL DEBT ASSESSMENT:''] analysis"

text \<open>\<^verbatim>\<open>if (m && m[1].trim()) list.push(`${file.path}: ${m[1].trim()}`)\<close>\<close>

definition pushSection :: "string \<Rightarrow> string option \<Rightarrow> string list \<Rightarrow> string list" where
  "pushSection filePath m list =
     (case m of
        None \<Rightarrow> list
      | Some g \<Rightarrow> if trim g \<noteq> [] then list @ [filePath @ '': '' @ trim g] else list)"

subsection \<open>The file filter\<close>

record GitHubFile =
  path :: string
  ftype :: string
  fsize :: int
  url :: string

definition codeExtensions :: "string list" where
  "codeExtensions = [''.js'', ''.jsx'', ''.ts'', ''.tsx'', ''.py'', ''.java'', ''.cpp'', ''.c'',
     ''.cs'', ''.php'', ''.rb'', ''.go'', ''.rs'', ''.kt'', ''.swift'', ''.vue'', ''.svelte'',
     ''.dart'', ''.scala'', ''.clj'', ''.hs'', ''.ml'', ''.r'', ''.sql'']"

definition configExtensions :: "string list" where
  "configExtensions = [''.json'', ''.yml'', ''.yaml'', ''.toml'', ''.xml'', ''.ini'', ''.env'',
     ''.config'']"

definition docExtensions :: "string list" where
  "docExtensions = [''.md'', ''.txt'', ''.rst'']"

text \<open>
  \<^verbatim>\<open>const allFiles = treeData.tree.filter((file: GitHubFile) => {
    if (file.type !== 'blob') return false;
    if (file.path.includes('node_modules') || file.path.includes('.git') ||
        file.path.includes('dist/') || file.path.includes('build/')) return false;
    if (file.size > 100000) return false;
    const hasRelevantExtension = [...codeExtensions, ...configExtensions, ...docExtensions]
      .some(ext => file.path.endsWith(ext));
    const isConfigFile = ['package.json', 'composer.json', 'Dockerfile', 'requirements.txt',
      'pom.xml', 'build.gradle', 'Cargo.toml', 'go.mod'].some(name => file.path.endsWith(name));
    return hasRelevantExtension || isConfigFile;
  });\<close>
\<close>

definition excludedPath :: "string \<Rightarrow> bool" where
  "excludedPath p = (includesStr p ''node_modules'' \<or> includesStr p ''.git''
     \<or> includesStr p ''dist/'' \<or> includesStr p ''build/'')"

definition hasRelevantExtension :: "GitHubFile \<Rightarrow> bool" where
  "hasRelevantExtension file =
     list_ex (\<lambda>ext. endsWith (path file) ext) (codeExtensions @ configExtensions @ docExtensions)"

definition isConfigFile :: "GitHubFile \<Rightarrow> bool" where
  "isConfigFile file =
     list_ex (\<lambda>name. endsWith (path file) name)
       [''package.json'', ''composer.json'', ''Dockerfile'', ''requirements.txt'', ''pom.xml'',
        ''build.gradle'', ''Cargo.toml'', ''go.mod'']"

definition relevantFile :: "GitHubFile \<Rightarrow> bool" where
  "relevantFile file =
     (if ftype file \<noteq> ''blob'' then False
      else if excludedPath (path file) then False
      else if fsize file > 100000 then False
      else hasRelevantExtension file \<or> isConfigFile file)"

definition allFiles :: "GitHubFile list \<Rightarrow> GitHubFile list" where
  "allFiles tree = filter relevantFile tree"

text \<open>
  \<^verbatim>\<open>const codeFiles = allFiles.filter(f => codeExtensions.some(ext => f.path.endsWith(ext)));
  const configFiles = allFiles.filter(f =>
    configExtensions.some(ext => f.path.endsWith(ext)) ||
    ['package.json', 'composer.json', 'requirements.txt', 'pom.xml', 'build.gradle',
     'Cargo.toml', 'go.mod'].some(name => f.path.endsWith(name)));\<close>
\<close>

definition manifestNames :: "string list" where
  "manifestNames = [''package.json'', ''composer.json'', ''requirements.txt'', ''pom.xml'',
     ''build.gradle'', ''Cargo.toml'', ''go.mod'']"

definition isCode :: "GitHubFile \<Rightarrow> bool" where
  "isCode f = list_ex (\<lambda>ext. endsWith (path f) ext) codeExtensions"

definition isManifest :: "GitHubFile \<Rightarrow> bool" where
  "isManifest f = (list_ex (\<lambda>ext. endsWith (path f) ext) configExtensions
     \<or> list_ex (\<lambda>name. endsWith (path f) name) manifestNames)"

definition codeFiles :: "GitHubFile list \<Rightarrow> GitHubFile list" where
  "codeFiles tree = filter isCode (allFiles tree)"

definition configFiles :: "GitHubFile list \<Rightarrow> GitHubFile list" where
  "configFiles tree = filter isManifest (allFiles tree)"

subsection \<open>The outside world\<close>

text \<open>
  A value thrown inside the handler is an \<^verbatim>\<open>Error\<close> with its message, or something
  else. What a \<^verbatim>\<open>fetch\<close> followed by \<^verbatim>\<open>json()\<close> gives: it throws, or answers with
  \<^verbatim>\<open>ok\<close> false and a status, or answers with a body. A call to the record store
  throws, or reports an error with a message, or succeeds.
\<close>

datatype thrown = Error string | OtherValue

datatype 'a fetched = Threw thrown | NotOk nat | Ok 'a

datatype 'a stored = StoreThrew thrown | StoreError string | Stored 'a

record GitHubRepoResponse =
  name :: string
  default_branch :: string

text \<open>
  The fields of the request, the environment and the answers of the services. Of a
  file's content answer only the field \<^verbatim>\<open>content\<close> is read (absent: \<open>None\<close>); of the
  reviewer's answer only \<^verbatim>\<open>choices[0].message.content\<close> (an answer without it makes
  that expression throw). The content of a file is asked by its path, the reviewer
  by the path of the file and the number of earlier attempts for it. \<open>parseDependencies\<close>
  stands for \<^verbatim>\<open>JSON.parse\<close> followed by \<^verbatim>\<open>Object.keys\<close> of the merged
  \<^verbatim>\<open>dependencies\<close> and \<^verbatim>\<open>devDependencies\<close>, \<open>None\<close> when that throws.
\<close>

record world =
  repoUrl :: string
  authorization :: "string option"
  getUser :: "thrown + string option"
  insertAnalysis :: "string stored"
  fetchRepo :: "GitHubRepoResponse fetched"
  fetchTree :: "GitHubFile list fetched"
  fetchContent :: "string \<Rightarrow> string option fetched"
  decodeBase64 :: "string \<Rightarrow> string"
  parseDependencies :: "string \<Rightarrow> string list option"
  groqApiKey :: "string option"
  groq :: "string \<Rightarrow> nat \<Rightarrow> string fetched"
  updateAnalysis :: "unit stored"

text \<open>\<^verbatim>\<open>!x\<close> for an optional string: absent or empty.\<close>

definition falsy :: "string option \<Rightarrow> bool" where
  "falsy x = (x = None \<or> x = Some [])"

subsection \<open>The retry loop\<close>

text \<open>
  \<^verbatim>\<open>let attempts = 0; let analysis = ''; let validResponse = false;
  while (attempts < 3 && !validResponse) {
    const groqResponse = await fetch(...);
    if (groqResponse.ok) {
      const groqData = await groqResponse.json();
      analysis = groqData.choices[0].message.content;
      analysis = cleanAiResponse(analysis);
      validResponse = validateResponseFormat(analysis);
      ...
    } else { ...; return null; }
    attempts++;
  }\<close>
  \<open>reviewer k\<close> is the answer to the call made when \<^verbatim>\<open>attempts\<close> is \<open>k\<close>. The loop either
  leaves the task (\<^verbatim>\<open>return null\<close>, or a throw that the task's \<^verbatim>\<open>catch\<close> turns into
  \<^verbatim>\<open>null\<close>) or ends with its three variables; \<open>calls\<close> is the number of calls made.
\<close>

datatype loop_end = LeftTask (calls: nat) | LoopDone (calls: nat) string bool

function reviewLoop :: "(nat \<Rightarrow> string fetched) \<Rightarrow> nat \<Rightarrow> string \<Rightarrow> bool \<Rightarrow> loop_end" where
  "reviewLoop reviewer attempts analysis validResponse =
     (if attempts < 3 \<and> \<not> validResponse
      then (case reviewer attempts of
              Ok content \<Rightarrow>
                reviewLoop reviewer (attempts + 1) (cleanAiResponse content)
                  (validateResponseFormat (cleanAiResponse content))
            | NotOk st \<Rightarrow> LeftTask (attempts + 1)
            | Threw e \<Rightarrow> LeftTask (attempts + 1))
      else LoopDone attempts analysis validResponse)"
  by pat_completeness auto
termination
  by (relation "measure (\<lambda>(reviewer, attempts, analysis, validResponse). 3 - attempts)") auto

declare reviewLoop.simps [simp del]

text \<open>
  The end of the task, from the loop to \<^verbatim>\<open>return\<close>:
  \<^verbatim>\<open>if (!validResponse) { ...; return null; }\<close>, then the score and the insight
  (its fields \<^verbatim>\<open>file\<close> and \<^verbatim>\<open>size\<close> are \<open>fileName\<close> and \<open>fileSize\<close> here).
\<close>

record FileInsight =
  fileName :: string
  analysis :: string
  score :: int
  fileSize :: int
  extension :: string

subsection \<open>The batch loop\<close>

text \<open>
  \<^verbatim>\<open>for (let i = 0; i < codeFiles.length; i += batchSize) {
    const batch = codeFiles.slice(i, i + batchSize); ... }\<close>
  \<open>batchesFrom i xs\<close> is the list of the values of \<^verbatim>\<open>batch\<close> from loop index \<open>i\<close> on.
\<close>

definition batchSize :: nat where
  "batchSize = 10"

definition slice :: "'a list \<Rightarrow> nat \<Rightarrow> nat \<Rightarrow> 'a list" where
  "slice xs i j = take (j - i) (drop i xs)"

function batchesFrom :: "nat \<Rightarrow> 'a list \<Rightarrow> 'a list list" where
  "batchesFrom i xs =
     (if i < length xs then slice xs i (i + batchSize) # batchesFrom (i + batchSize) xs else [])"
  by pat_completeness auto
termination
  by (relation "measure (\<lambda>(i, xs). length xs - i)") (auto simp: batchSize_def)

declare batchesFrom.simps [simp del]

definition batches :: "'a list \<Rightarrow> 'a list list" where
  "batches xs = batchesFrom 0 xs"

subsection \<open>The accumulators of one run\<close>

text \<open>
  What the handler awaits, in the order of the calls; the property that the record is
  created before any fetch is read off this list.
\<close>

datatype event =
    CallGetUser
  | CallInsert
  | FetchRepoInfo
  | FetchFileTree
  | FetchFileContent string
  | CallReviewer string nat
  | CallUpdate

text \<open>
  The local variables that the tasks share: the arrays, the object \<^verbatim>\<open>languageStats\<close>
  (an association list, keys in insertion order) and the three \<^verbatim>\<open>Set\<close>s (lists without
  repetition, in insertion order), and the list of calls made so far. The tasks of one
  batch run one after the other here, in the order of the batch; the sizes of the
  sets and arrays, which is all the score and the response read, do not depend on
  how the tasks interleave.
\<close>

record accumulators =
  fileInsights :: "FileInsight list"
  suggestions :: "string list"
  languageStats :: "(string \<times> nat) list"
  frameworks :: "string list"
  tools :: "string list"
  architecturePatterns :: "string list"
  codeQualityIssues :: "string list"
  securityIssues :: "string list"
  trace :: "event list"

definition setAdd :: "string \<Rightarrow> string list \<Rightarrow> string list" where
  "setAdd x xs = (if x \<in> set xs then xs else xs @ [x])"

definition addFramework :: "string \<Rightarrow> accumulators \<Rightarrow> accumulators" where
  "addFramework x a = a\<lparr>frameworks := setAdd x (frameworks a)\<rparr>"

definition addTool :: "string \<Rightarrow> accumulators \<Rightarrow> accumulators" where
  "addTool x a = a\<lparr>tools := setAdd x (tools a)\<rparr>"

definition addPattern :: "string \<Rightarrow> accumulators \<Rightarrow> accumulators" where
  "addPattern x a = a\<lparr>architecturePatterns := setAdd x (architecturePatterns a)\<rparr>"

definition logEvent :: "event \<Rightarrow> accumulators \<Rightarrow> accumulators" where
  "logEvent e a = a\<lparr>trace := trace a @ [e]\<rparr>"

text \<open>A sequence of statements \<^verbatim>\<open>if (condition) update;\<close>, run in order.\<close>

definition applyRules :: "(bool \<times> (accumulators \<Rightarrow> accumulators)) list \<Rightarrow> accumulators \<Rightarrow> accumulators" where
  "applyRules rules a = fold (\<lambda>(b, f) acc. if b then f acc else acc) rules a"

subsection \<open>The manifest pass\<close>

text \<open>
  \<^verbatim>\<open>Object.keys(deps).forEach(dep => {
    if (dep.includes('react')) frameworks.add('React'); ... });\<close>
\<close>

definition dependencyRules :: "string \<Rightarrow> (bool \<times> (accumulators \<Rightarrow> accumulators)) list" where
  "dependencyRules dep =
     [(includesStr dep ''react'', addFramework ''React''),
      (includesStr dep ''vue'', addFramework ''Vue.js''),
      (includesStr dep ''angular'', addFramework ''Angular''),
      (includesStr dep ''express'', addFramework ''Express.js''),
      (includesStr dep ''next'', addFramework ''Next.js''),
      (includesStr dep ''svelte'', addFramework ''Svelte''),
      (includesStr dep ''webpack'', addTool ''Webpack''),
      (includesStr dep ''vite'', addTool ''Vite''),
      (includesStr dep ''typescript'', addTool ''TypeScript''),
      (includesStr dep ''eslint'', addTool ''ESLint''),
      (includesStr dep ''prettier'', addTool ''Prettier''),
      (includesStr dep ''jest'', addTool ''Jest''),
      (includesStr dep ''cypress'', addTool ''Cypress'')]"

text \<open>
  \<^verbatim>\<open>content.split('\n')\<close> is \<open>splitOn (CHR 0x0A) content\<close>, and
  \<^verbatim>\<open>lines.forEach(line => { if (line.includes('django')) frameworks.add('Django'); ... });\<close>
\<close>

fun splitOn :: "char \<Rightarrow> string \<Rightarrow> string list" where
  "splitOn sep [] = [[]]"
| "splitOn sep (c # cs) =
     (if c = sep then [] # splitOn sep cs
      else (case splitOn sep cs of l # ls \<Rightarrow> (c # l) # ls | [] \<Rightarrow> [[c]]))"

definition requirementRules :: "string \<Rightarrow> (bool \<times> (accumulators \<Rightarrow> accumulators)) list" where
  "requirementRules line =
     [(includesStr line ''django'', addFramework ''Django''),
      (includesStr line ''flask'', addFramework ''Flask''),
      (includesStr line ''fastapi'', addFramework ''FastAPI''),
      (includesStr line ''pandas'', addTool ''Pandas''),
      (includesStr line ''numpy'', addTool ''NumPy''),
      (includesStr line ''tensorflow'', addFramework ''TensorFlow''),
      (includesStr line ''pytorch'', addFramework ''PyTorch'')]"

text \<open>
  The four blocks \<^verbatim>\<open>if (file.path.endsWith('package.json')) { try {...} catch {...} }\<close>,
  \<^verbatim>\<open>requirements.txt\<close>, \<^verbatim>\<open>Cargo.toml\<close> and \<^verbatim>\<open>go.mod\<close>, on the decoded content.
\<close>

definition detectFromManifest :: "world \<Rightarrow> string \<Rightarrow> string \<Rightarrow> accumulators \<Rightarrow> accumulators" where
  "detectFromManifest w p content a =
     (let a1 = (if endsWith p ''package.json''
                then (case parseDependencies w content of
                        None \<Rightarrow> a
                      | Some deps \<Rightarrow> fold (\<lambda>dep. applyRules (dependencyRules dep)) deps a)
                else a);
          a2 = (if endsWith p ''requirements.txt''
                then fold (\<lambda>line. applyRules (requirementRules line)) (splitOn (CHR 0x0A) content) a1
                else a1);
          a3 = (if endsWith p ''Cargo.toml''
                then applyRules [(True, addFramework ''Rust''),
                                 (includesStr content ''tokio'', addFramework ''Tokio''),
                                 (includesStr content ''actix'', addFramework ''Actix Web'')] a2
                else a2)
      in if endsWith p ''go.mod''
         then applyRules [(True, addFramework ''Go Modules''),
                          (includesStr content ''gin-gonic'', addFramework ''Gin''),
                          (includesStr content ''gorilla'', addFramework ''Gorilla'')] a3
         else a3)"

text \<open>
  The body of \<^verbatim>\<open>for (const file of configFiles) { try { ... } catch (error) { ... } }\<close>:
  a content answer that throws or is not \<^verbatim>\<open>ok\<close>, or has no content, leaves the
  accumulators as they are.
\<close>

definition processConfigFile :: "world \<Rightarrow> GitHubFile \<Rightarrow> accumulators \<Rightarrow> accumulators" where
  "processConfigFile w f a =
     (let a1 = logEvent (FetchFileContent (path f)) a in
      case fetchContent w (path f) of
        Threw e \<Rightarrow> a1
      | NotOk st \<Rightarrow> a1
      | Ok c \<Rightarrow>
          (case c of
             None \<Rightarrow> a1
           | Some encoded \<Rightarrow>
               if encoded = [] then a1
               else detectFromManifest w (path f) (decodeBase64 w encoded) a1))"

subsection \<open>The review of one code file\<close>

text \<open>\<^verbatim>\<open>const fileExtension = file.path.split('.').pop() || 'unknown';\<close>\<close>

definition fileExtension :: "string \<Rightarrow> string" where
  "fileExtension p =
     (let seg = rev (takeWhile (\<lambda>c. c \<noteq> CHR ''.'') (rev p))
      in if seg = [] then ''unknown'' else seg)"

text \<open>\<^verbatim>\<open>languageStats[fileExtension] = (languageStats[fileExtension] || 0) + 1;\<close>\<close>

definition countLanguage :: "string \<Rightarrow> (string \<times> nat) list \<Rightarrow> (string \<times> nat) list" where
  "countLanguage ext stats =
     (case map_of stats ext of
        None \<Rightarrow> stats @ [(ext, 1)]
      | Some n \<Rightarrow> map (\<lambda>(k, v). if k = ext then (k, v + 1) else (k, v)) stats)"

definition detectFromCode :: "string \<Rightarrow> accumulators \<Rightarrow> accumulators" where
  "detectFromCode content =
     applyRules
       [(includesStr content ''class '' \<and> includesStr content ''extends'', addPattern ''Object-Oriented''),
        (includesStr content ''function'' \<and> includesStr content ''=>'', addPattern ''Functional Programming''),
        (includesStr content ''import'' \<and> includesStr content ''from'', addPattern ''Modular Architecture''),
        (includesStr content ''async'' \<and> includesStr content ''await'', addPattern ''Asynchronous Programming''),
        (includesStr content ''useState'' \<or> includesStr content ''useEffect'', addFramework ''React Hooks''),
        (includesStr content ''@Component'' \<or> includesStr content ''@Injectable'', addFramework ''Angular''),
        (includesStr content ''@RestController'' \<or> includesStr content ''@Service'', addFramework ''Spring Boot'')]"

definition logCalls :: "string \<Rightarrow> nat \<Rightarrow> accumulators \<Rightarrow> accumulators" where
  "logCalls p n a = a\<lparr>trace := trace a @ map (CallReviewer p) [0..<n]\<rparr>"

text \<open>
  The three pushes after the loop:
  \<^verbatim>\<open>if (qualityIssuesMatch && qualityIssuesMatch[1].trim()) codeQualityIssues.push(...)\<close>,
  the same for \<^verbatim>\<open>securityIssues\<close> and for \<^verbatim>\<open>suggestions\<close>.
\<close>

definition recordSections :: "string \<Rightarrow> string \<Rightarrow> accumulators \<Rightarrow> accumulators" where
  "recordSections p txt a =
     a\<lparr>codeQualityIssues := pushSection p (qualityIssuesMatch txt) (codeQualityIssues a),
       securityIssues := pushSection p (securityIssuesMatch txt) (securityIssues a),
       suggestions := pushSection p (recommendationsMatch txt) (suggestions a)\<rparr>"

text \<open>
  The task \<^verbatim>\<open>async (file: GitHubFile): Promise<FileInsight | null>\<close> of the batch
  loop. Every \<^verbatim>\<open>return null\<close> and every throw (which the task's \<^verbatim>\<open>catch\<close> turns into
  \<^verbatim>\<open>null\<close>) gives \<open>None\<close>; what the task wrote to the shared variables before stays
  written. The prompt is a function of the file and its content, and the reviewer's
  answers are inputs, so the prompt itself is not part of the model.
\<close>

definition reviewFile :: "world \<Rightarrow> GitHubFile \<Rightarrow> accumulators \<Rightarrow> accumulators \<times> FileInsight option" where
  "reviewFile w f a =
     (let a1 = logEvent (FetchFileContent (path f)) a in
      case fetchContent w (path f) of
        Threw e \<Rightarrow> (a1, None)
      | NotOk st \<Rightarrow> (a1, None)
      | Ok c \<Rightarrow>
          (case c of
             None \<Rightarrow> (a1, None)
           | Some encoded \<Rightarrow>
               if encoded = [] then (a1, None)
               else
                 (let content = decodeBase64 w encoded;
                      ext = fileExtension (path f);
                      a2 = detectFromCode content (a1\<lparr>languageStats := countLanguage ext (languageStats a1)\<rparr>)
                  in if falsy (groqApiKey w) then (a2, None)
                     else
                       (case reviewLoop (groq w (path f)) 0 [] False of
                          LeftTask n \<Rightarrow> (logCalls (path f) n a2, None)
                        | LoopDone n txt valid \<Rightarrow>
                            if \<not> valid then (logCalls (path f) n a2, None)
                            else (recordSections (path f) txt (logCalls (path f) n a2),
                                  Some \<lparr>fileName = path f, analysis = txt, score = fileScore txt,
                                        fileSize = fsize f, extension = ext\<rparr>)))))"

text \<open>
  \<^verbatim>\<open>const batchResults = await Promise.all(batchPromises);
  const validResults = batchResults.filter((result) => result !== null);
  fileInsights.push(...validResults);\<close>
\<close>

fun runTasks :: "world \<Rightarrow> GitHubFile list \<Rightarrow> accumulators \<Rightarrow> accumulators \<times> FileInsight option list" where
  "runTasks w [] a = (a, [])"
| "runTasks w (f # fs) a =
     (case reviewFile w f a of
        (a1, r) \<Rightarrow> (case runTasks w fs a1 of (a2, rs) \<Rightarrow> (a2, r # rs)))"

definition processBatch :: "world \<Rightarrow> GitHubFile list \<Rightarrow> accumulators \<Rightarrow> accumulators" where
  "processBatch w batch a =
     (case runTasks w batch a of
        (a1, batchResults) \<Rightarrow>
          a1\<lparr>fileInsights := fileInsights a1 @ List.map_filter (\<lambda>r. r) batchResults\<rparr>)"

subsection \<open>The score formula\<close>

text \<open>
  \<^verbatim>\<open>let finalScore = 0;
  if (fileInsights.length > 0) {
    const avgCodeQuality = fileInsights.reduce((sum, file) => sum + file.score, 0) / fileInsights.length;
    const architectureBonus = architecturePatterns.size > 0 ? Math.min(2, architecturePatterns.size * 0.5) : 0;
    const frameworkBonus = frameworks.size > 0 ? Math.min(1, frameworks.size * 0.2) : 0;
    const securityPenalty = securityIssues.length > 0 ? Math.min(2, securityIssues.length * 0.3) : 0;
    finalScore = Math.max(1, Math.min(10, Math.round(avgCodeQuality + architectureBonus + frameworkBonus - securityPenalty)));
  } else { finalScore = 1; }\<close>
  The arguments are the scores of the file insights and the three sizes.
  \<^verbatim>\<open>Math.round(x)\<close> is \<open>\<lfloor>x + 1/2\<rfloor>\<close>, which is \<open>round\<close> of HOL.
\<close>

definition avgCodeQuality :: "int list \<Rightarrow> rat" where
  "avgCodeQuality scores = of_int (foldl (+) 0 scores) / of_nat (length scores)"

definition architectureBonus :: "nat \<Rightarrow> rat" where
  "architectureBonus n = (if n > 0 then min 2 (of_nat n * (1 / 2)) else 0)"

definition frameworkBonus :: "nat \<Rightarrow> rat" where
  "frameworkBonus n = (if n > 0 then min 1 (of_nat n * (1 / 5)) else 0)"

definition securityPenalty :: "nat \<Rightarrow> rat" where
  "securityPenalty n = (if n > 0 then min 2 (of_nat n * (3 / 10)) else 0)"

definition finalScore :: "int list \<Rightarrow> nat \<Rightarrow> nat \<Rightarrow> nat \<Rightarrow> int" where
  "finalScore scores nArch nFrameworks nSecurity =
     (if length scores > 0
      then max 1 (min 10 (round (avgCodeQuality scores + architectureBonus nArch
                                  + frameworkBonus nFrameworks - securityPenalty nSecurity)))
      else 1)"

subsection \<open>The record store and the response\<close>

text \<open>
  The value written to the column \<^verbatim>\<open>tech_stack\<close>. The write of the branch without
  files gives only the first three fields, so the last three are optional here.
\<close>

record TechStack =
  languages :: "(string \<times> nat) list"
  stackFrameworks :: "string list"
  stackTools :: "string list"
  architecture_patterns :: "string list option"
  security_issues_count :: "nat option"
  quality_issues_count :: "nat option"

text \<open>
  A row of the table \<^verbatim>\<open>analyses\<close>, as far as the handler writes it: the insert gives
  \<^verbatim>\<open>user_id\<close>, \<^verbatim>\<open>repo_url\<close> and \<^verbatim>\<open>status\<close>, the store gives the identifier, and a column
  that the handler has not written is \<open>None\<close>.
\<close>

record AnalysisRow =
  rowId :: string
  user_id :: string
  repo_url :: string
  status :: string
  stack_score :: "int option"
  summary :: "string option"
  rowSuggestions :: "string list option"
  tech_stack :: "TechStack option"
  file_insights :: "FileInsight list option"

datatype json = JBool bool | JNum int | JStr string

record Response =
  statusCode :: nat
  body :: "(string \<times> json) list"

text \<open>
  What one request leaves behind: the row of this run (\<open>None\<close> when the insert did not
  happen or did not succeed), the response, and the calls made.
\<close>

record outcome =
  row :: "AnalysisRow option"
  response :: Response
  callLog :: "event list"

text \<open>
  \<^verbatim>\<open>catch (error) {
    return res.status(500).json({ error: error instanceof Error ? error.message : 'Unknown error' });
  }\<close>
  The handler writes nothing to the store here.
\<close>

definition fail :: "AnalysisRow option \<Rightarrow> event list \<Rightarrow> thrown \<Rightarrow> outcome" where
  "fail r evs e =
     \<lparr>row = r,
      response = \<lparr>statusCode = 500,
                  body = [(''error'', JStr (case e of Error m \<Rightarrow> m | OtherValue \<Rightarrow> ''Unknown error''))]\<rparr>,
      callLog = evs\<rparr>"

text \<open>Decimal numerals, as template literals print counts and status codes.\<close>

definition digitChar :: "nat \<Rightarrow> char" where
  "digitChar n = char_of (48 + n)"

function showNat :: "nat \<Rightarrow> string" where
  "showNat n = (if n < 10 then [digitChar n] else showNat (n div 10) @ [digitChar (n mod 10)])"
  by pat_completeness auto
termination
  by (relation "measure (\<lambda>n. n)") auto

declare showNat.simps [simp del]

text \<open>
  \<^verbatim>\<open>const avgQuality = fileInsights.length > 0 ?
    Math.round((fileInsights.reduce((sum, file) => sum + file.score, 0) / fileInsights.length) * 10) / 10 : 0;\<close>
  \<open>avgQualityTenths\<close> is ten times \<^verbatim>\<open>avgQuality\<close>; it is not negative, as the scores
  are not, and prints with at most one decimal.
\<close>

definition avgQualityTenths :: "int list \<Rightarrow> int" where
  "avgQualityTenths scores =
     (if length scores > 0 then round (avgCodeQuality scores * 10) else 0)"

definition showTenths :: "int \<Rightarrow> string" where
  "showTenths m =
     (if m mod 10 = 0 then showNat (nat (m div 10))
      else showNat (nat (m div 10)) @ ''.'' @ showNat (nat (m mod 10)))"

text \<open>\<^verbatim>\<open>Array.from(set).join(', ') || fallback\<close>\<close>

fun joinComma :: "string list \<Rightarrow> string" where
  "joinComma [] = []"
| "joinComma [x] = x"
| "joinComma (x # y # ys) = x @ '', '' @ joinComma (y # ys)"

definition joinOr :: "string list \<Rightarrow> string \<Rightarrow> string" where
  "joinOr xs fallback = (if joinComma xs = [] then fallback else joinComma xs)"

definition summaryText :: "string \<Rightarrow> accumulators \<Rightarrow> string" where
  "summaryText repoName a =
     ''Comprehensive analysis of '' @ repoName @ '': Analyzed '' @ showNat (length (fileInsights a))
     @ '' files across '' @ showNat (length (languageStats a)) @ '' languages. '' @ [CHR 0x0A]
     @ ''    '' @ [CHR 0x0A]
     @ ''Architecture: '' @ joinOr (architecturePatterns a) ''Basic structure detected'' @ [CHR 0x0A]
     @ ''Frameworks: '' @ joinOr (frameworks a) ''No major frameworks detected'' @ [CHR 0x0A]
     @ ''Code Quality: Average score '' @ showTenths (avgQualityTenths (map score (fileInsights a)))
     @ ''/10'' @ [CHR 0x0A]
     @ ''Security: '' @ showNat (length (securityIssues a)) @ '' potential security concerns identified''
     @ [CHR 0x0A]
     @ ''Technical Debt: '' @ showNat (length (codeQualityIssues a)) @ '' code quality issues found''"

text \<open>The score of the run, from the accumulators.\<close>

definition runScore :: "accumulators \<Rightarrow> int" where
  "runScore a =
     finalScore (map score (fileInsights a)) (length (architecturePatterns a))
       (length (frameworks a)) (length (securityIssues a))"

subsection \<open>The handler\<close>

text \<open>
  The branch \<^verbatim>\<open>if (allFiles.length === 0) { ... }\<close>: one update, and the response
  \<^verbatim>\<open>{ success: true, analysisId: analysisRecord.id, score: 1, filesAnalyzed: 0 }\<close>.
  An update that reports an error or throws leaves the row as it was.
\<close>

definition noFilesFound :: "world \<Rightarrow> AnalysisRow \<Rightarrow> event list \<Rightarrow> outcome" where
  "noFilesFound w r evs =
     (case updateAnalysis w of
        StoreThrew e \<Rightarrow> fail (Some r) (evs @ [CallUpdate]) e
      | StoreError m \<Rightarrow> fail (Some r) (evs @ [CallUpdate]) (Error (''Failed to update analysis: '' @ m))
      | Stored u \<Rightarrow>
          \<lparr>row = Some (r\<lparr>status := ''completed'',
                          stack_score := Some 1,
                          summary := Some ''Repository analyzed but no supported files found.'',
                          rowSuggestions := Some [''Add supported file types and frameworks to improve analysis''],
                          tech_stack := Some \<lparr>languages = [], stackFrameworks = [], stackTools = [],
                                             architecture_patterns = None, security_issues_count = None,
                                             quality_issues_count = None\<rparr>,
                          file_insights := Some []\<rparr>),
           response = \<lparr>statusCode = 200,
                       body = [(''success'', JBool True), (''analysisId'', JStr (rowId r)),
                               (''score'', JNum 1), (''filesAnalyzed'', JNum 0)]\<rparr>,
           callLog = evs @ [CallUpdate]\<rparr>)"

text \<open>
  From \<^verbatim>\<open>// Initialize comprehensive analysis data\<close> to the end of the \<^verbatim>\<open>try\<close> block: the
  manifest pass, the batches in order, the score, the summary, the update and the
  response.
\<close>

definition initialAccumulators :: "event list \<Rightarrow> accumulators" where
  "initialAccumulators evs =
     \<lparr>fileInsights = [], suggestions = [], languageStats = [], frameworks = [], tools = [],
      architecturePatterns = [], codeQualityIssues = [], securityIssues = [], trace = evs\<rparr>"

definition analyzeFiles :: "world \<Rightarrow> GitHubFile list \<Rightarrow> event list \<Rightarrow> accumulators" where
  "analyzeFiles w tree evs =
     fold (processBatch w) (batches (codeFiles tree))
       (fold (processConfigFile w) (configFiles tree) (initialAccumulators evs))"

definition completeAnalysis :: "world \<Rightarrow> AnalysisRow \<Rightarrow> GitHubRepoResponse \<Rightarrow> accumulators \<Rightarrow> outcome" where
  "completeAnalysis w r repoData a =
     (case updateAnalysis w of
        StoreThrew e \<Rightarrow> fail (Some r) (trace a @ [CallUpdate]) e
      | StoreError m \<Rightarrow> fail (Some r) (trace a @ [CallUpdate]) (Error (''Failed to update analysis: '' @ m))
      | Stored u \<Rightarrow>
          \<lparr>row = Some (r\<lparr>status := ''completed'',
                          stack_score := Some (runScore a),
                          summary := Some (summaryText (name repoData) a),
                          rowSuggestions := Some (take 10 (suggestions a) @ take 5 (codeQualityIssues a)
                                                   @ take 5 (securityIssues a)),
                          tech_stack := Some \<lparr>languages = languageStats a, stackFrameworks = frameworks a,
                                             stackTools = tools a,
                                             architecture_patterns = Some (architecturePatterns a),
                                             security_issues_count = Some (length (securityIssues a)),
                                             quality_issues_count = Some (length (codeQualityIssues a))\<rparr>,
                          file_insights := Some (fileInsights a)\<rparr>),
           response = \<lparr>statusCode = 200,
                       body = [(''success'', JBool True), (''analysisId'', JStr (rowId r)),
                               (''score'', JNum (runScore a)),
                               (''filesAnalyzed'', JNum (int (length (fileInsights a)))),
                               (''languages'', JNum (int (length (languageStats a)))),
                               (''frameworks'', JNum (int (length (frameworks a)))),
                               (''securityIssues'', JNum (int (length (securityIssues a))))]\<rparr>,
           callLog = trace a @ [CallUpdate]\<rparr>)"

text \<open>
  After the insert: the two fetches whose failure ends the run, then the filter and
  one of the two branches.
\<close>

definition afterInsert :: "world \<Rightarrow> AnalysisRow \<Rightarrow> event list \<Rightarrow> outcome" where
  "afterInsert w r evs =
     (case fetchRepo w of
        Threw e \<Rightarrow> fail (Some r) (evs @ [FetchRepoInfo]) e
      | NotOk st \<Rightarrow>
          fail (Some r) (evs @ [FetchRepoInfo])
            (Error (''Repository not found or not accessible: '' @ showNat st))
      | Ok repoData \<Rightarrow>
          (case fetchTree w of
             Threw e \<Rightarrow> fail (Some r) (evs @ [FetchRepoInfo, FetchFileTree]) e
           | NotOk st \<Rightarrow>
               fail (Some r) (evs @ [FetchRepoInfo, FetchFileTree])
                 (Error (''Failed to fetch file tree: '' @ showNat st))
           | Ok tree \<Rightarrow>
               if length (allFiles tree) = 0
               then noFilesFound w r (evs @ [FetchRepoInfo, FetchFileTree])
               else completeAnalysis w r repoData
                      (analyzeFiles w tree (evs @ [FetchRepoInfo, FetchFileTree]))))"

text \<open>
  \<^verbatim>\<open>app.post('/analyze-repository', async (req, res) => { try { ... } catch (error) { ... } })\<close>:
  the authorization header, the user, the insert with \<^verbatim>\<open>status: 'pending'\<close>, and the
  rest.
\<close>

definition analyzeRepository :: "world \<Rightarrow> outcome" where
  "analyzeRepository w =
     (if falsy (authorization w) then fail None [] (Error ''Authorization header missing'')
      else
        (case getUser w of
           Inl e \<Rightarrow> fail None [CallGetUser] e
         | Inr None \<Rightarrow> fail None [CallGetUser] (Error ''User not authenticated'')
         | Inr (Some uid) \<Rightarrow>
             (case insertAnalysis w of
                StoreThrew e \<Rightarrow> fail None [CallGetUser, CallInsert] e
              | StoreError m \<Rightarrow>
                  fail None [CallGetUser, CallInsert]
                    (Error (''Failed to create analysis record: '' @ m))
              | Stored newId \<Rightarrow>
                  afterInsert w
                    \<lparr>rowId = newId, user_id = uid, repo_url = repoUrl w, status = ''pending'',
                     stack_score = None, summary = None, rowSuggestions = None, tech_stack = None,
                     file_insights = None\<rparr>
                    [CallGetUser, CallInsert])))"

subsection \<open>Vocabulary of the properties\<close>


text \<open>The directory segments of a path, and its final component.\<close>

definition directorySegments :: "string \<Rightarrow> string list" where
  "directorySegments p = butlast (splitOn (CHR ''/'') p)"

definition basename :: "string \<Rightarrow> string" where
  "basename p = last (splitOn (CHR ''/'') p)"





subsection \<open>Example runs\<close>

text \<open>
  A repository with one code file, one manifest and one file under an excluded
  directory; every service answers, and the reviewer answers in the required format.
\<close>

definition exampleTree :: "GitHubFile list" where
  "exampleTree =
     [\<lparr>path = ''src/app.ts'', ftype = ''blob'', fsize = 1200, url = []\<rparr>,
      \<lparr>path = ''package.json'', ftype = ''blob'', fsize = 300, url = []\<rparr>,
      \<lparr>path = ''node_modules/x/index.js'', ftype = ''blob'', fsize = 50, url = []\<rparr>]"

definition exampleReview :: string where
  "exampleReview = ''SCORE: 8'' @ [CHR 0x0A] @ ''SECURITY REVIEW:'' @ [CHR 0x0A] @ ''Input Validation: none''
     @ [CHR 0x0A] @ ''TOP 5 ACTIONABLE RECOMMENDATIONS:'' @ [CHR 0x0A] @ ''1. Add tests''"

definition exampleWorld :: world where
  "exampleWorld =
     \<lparr>repoUrl = ''https://github.com/o/r'',
      authorization = Some ''Bearer t'',
      getUser = Inr (Some ''u1''),
      insertAnalysis = Stored ''a1'',
      fetchRepo = Ok \<lparr>name = ''r'', default_branch = ''main''\<rparr>,
      fetchTree = Ok exampleTree,
      fetchContent = (\<lambda>p. Ok (Some ''eA=='')),
      decodeBase64 = (\<lambda>c. ''import x from y''),
      parseDependencies = (\<lambda>c. Some [''react-dom'']),
      groqApiKey = Some ''k'',
      groq = (\<lambda>p k. Ok exampleReview),
      updateAnalysis = Stored ()\<rparr>"


section \<open>Properties\<close>

subsection \<open>The batch loop\<close>

lemma batchesFrom_unfold:
  "batchesFrom i xs = (if i < length xs then take 10 (drop i xs) # batchesFrom (i + 10) xs else [])"
  by (subst batchesFrom.simps) (simp add: slice_def batchSize_def)












subsection \<open>The score formula\<close>






subsection \<open>The retry loop\<close>

lemma reviewLoop_calls: "attempts \<le> 3 \<Longrightarrow> calls (reviewLoop g attempts a v) \<le> 3"
proof (induction g attempts a v rule: reviewLoop.induct)
  case (1 g attempts a v)
  show ?case
  proof (cases "attempts < 3 \<and> \<not> v")
    case True
    show ?thesis
    proof (cases "g attempts")
      case (Ok content)
      then show ?thesis using True 1 by (subst reviewLoop.simps) simp
    next
      case (NotOk st)
      then show ?thesis using True by (subst reviewLoop.simps) simp
    next
      case (Threw e)
      then show ?thesis using True by (subst reviewLoop.simps) simp
    qed
  next
    case False
    then show ?thesis using "1.prems" by (subst reviewLoop.simps) auto
  qed
qed

lemma reviewLoop_cong:
  "(\<forall>k<3. g' k = g k) \<Longrightarrow> reviewLoop g' attempts a v = reviewLoop g attempts a v"
proof (induction g attempts a v rule: reviewLoop.induct)
  case (1 g attempts a v)
  show ?case
  proof (cases "attempts < 3 \<and> \<not> v")
    case True
    then have eq: "g' attempts = g attempts" using "1.prems" by simp
    show ?thesis
    proof (cases "g attempts")
      case (Ok content)
      then show ?thesis using True eq 1
        by (subst reviewLoop.simps, subst (2) reviewLoop.simps) simp
    next
      case (NotOk st)
      then show ?thesis using True eq by (subst reviewLoop.simps, subst (2) reviewLoop.simps) simp
    next
      case (Threw e)
      then show ?thesis using True eq by (subst reviewLoop.simps, subst (2) reviewLoop.simps) simp
    qed
  next
    case False
    then show ?thesis by (subst reviewLoop.simps, subst (2) reviewLoop.simps) auto
  qed
qed

lemma reviewLoop_invalid_step:
  assumes "attempts < 3" "g attempts = Ok raw" "\<not> validateResponseFormat (cleanAiResponse raw)"
  shows "reviewLoop g attempts a False = reviewLoop g (Suc attempts) (cleanAiResponse raw) False"
  using assms by (subst reviewLoop.simps) simp

lemma reviewLoop_exhausted:
  assumes "\<forall>k<3. \<exists>raw. g k = Ok raw \<and> \<not> validateResponseFormat (cleanAiResponse raw)"
  shows "\<exists>out. reviewLoop g 0 [] False = LoopDone 3 out False"
proof -
  obtain r0 where r0: "g 0 = Ok r0" "\<not> validateResponseFormat (cleanAiResponse r0)"
    using assms [rule_format, of 0] by auto
  obtain r1 where r1: "g 1 = Ok r1" "\<not> validateResponseFormat (cleanAiResponse r1)"
    using assms [rule_format, of 1] by auto
  obtain r2 where r2: "g 2 = Ok r2" "\<not> validateResponseFormat (cleanAiResponse r2)"
    using assms [rule_format, of 2] by auto
  have "reviewLoop g 0 [] False = reviewLoop g (Suc 0) (cleanAiResponse r0) False"
    using r0 by (intro reviewLoop_invalid_step) simp_all
  also have "\<dots> = reviewLoop g (Suc (Suc 0)) (cleanAiResponse r1) False"
    using r1 by (intro reviewLoop_invalid_step) simp_all
  also have "\<dots> = reviewLoop g (Suc (Suc (Suc 0))) (cleanAiResponse r2) False"
    using r2 by (intro reviewLoop_invalid_step) (simp_all add: numeral_2_eq_2)
  also have "\<dots> = LoopDone 3 (cleanAiResponse r2) False"
    by (subst reviewLoop.simps) (simp add: numeral_3_eq_3)
  finally show ?thesis by blast
qed

lemma reviewFile_exhausted:
  assumes "\<forall>k<3. \<exists>raw. groq w (path f) k = Ok raw \<and> \<not> validateResponseFormat (cleanAiResponse raw)"
  shows "snd (reviewFile w f a) = None"
proof -
  obtain out where "reviewLoop (groq w (path f)) 0 [] False = LoopDone 3 out False"
    using reviewLoop_exhausted [OF assms] by blast
  then show ?thesis
    by (simp add: reviewFile_def Let_def split: fetched.splits option.splits)
qed

text \<open>
  C3. The retry loop is a total function, so it ends for every sequence of answers;
  it makes at most 3 calls and never reads an answer beyond the third; and when the
  first three answers all fail validation after cleaning, it ends after exactly 3
  calls without a valid text, and the task of that file returns no insight.
\<close>

theorem reviewLoop_at_most_three:
  "calls (reviewLoop g 0 [] False) \<le> 3
   \<and> (\<forall>g'. (\<forall>k<3. g' k = g k) \<longrightarrow> reviewLoop g' 0 [] False = reviewLoop g 0 [] False)
   \<and> ((\<forall>k<3. \<exists>raw. g k = Ok raw \<and> \<not> validateResponseFormat (cleanAiResponse raw))
        \<longrightarrow> (\<exists>out. reviewLoop g 0 [] False = LoopDone 3 out False))
   \<and> ((\<forall>k<3. \<exists>raw. groq w (path f) k = Ok raw \<and> \<not> validateResponseFormat (cleanAiResponse raw))
        \<longrightarrow> snd (reviewFile w f a) = None)"
  using reviewLoop_calls [of 0 g "[]" False] reviewLoop_cong [of _ g 0 "[]" False]
    reviewLoop_exhausted [of g] reviewFile_exhausted [of w f a]
  by blast

theorem reviewLoop_at_most_three_witness:
  "cleanAiResponse ''well-known'' = ''well-known'' \<and> \<not> validateResponseFormat ''well-known''
   \<and> reviewLoop (\<lambda>k. if k < 3 then Ok ''well-known'' else NotOk 500) 0 [] False
       = reviewLoop (\<lambda>k. Ok ''well-known'') 0 [] False
   \<and> (\<exists>out. reviewLoop (\<lambda>k. Ok ''well-known'') 0 [] False = LoopDone 3 out False)
   \<and> snd (reviewFile (exampleWorld\<lparr>groq := (\<lambda>p k. Ok ''well-known'')\<rparr>)
             \<lparr>path = ''src/app.ts'', ftype = ''blob'', fsize = 1200, url = []\<rparr>
             (initialAccumulators [])) = None"
proof -
  have c: "cleanAiResponse ''well-known'' = ''well-known''" by code_simp
  have v: "\<not> validateResponseFormat ''well-known''"
    by (simp add: validateResponseFormat_def forbiddenChar_def)
  have h: "\<forall>k<3. \<exists>raw. (\<lambda>k. Ok ''well-known'') k = Ok raw \<and> \<not> validateResponseFormat (cleanAiResponse raw)"
    using c v by simp
  have h': "\<forall>k<3. \<exists>raw. groq (exampleWorld\<lparr>groq := (\<lambda>p k. Ok ''well-known'')\<rparr>)
      (path \<lparr>path = ''src/app.ts'', ftype = ''blob'', fsize = 1200, url = []\<rparr>) k = Ok raw
      \<and> \<not> validateResponseFormat (cleanAiResponse raw)"
    using c v by simp
  note T = reviewLoop_at_most_three [of "\<lambda>k. Ok ''well-known''"
        "exampleWorld\<lparr>groq := (\<lambda>p k. Ok ''well-known'')\<rparr>"
        "\<lparr>path = ''src/app.ts'', ftype = ''blob'', fsize = 1200, url = []\<rparr>" "initialAccumulators []"]
  have g: "\<forall>k<3. (\<lambda>k. if k < 3 then Ok ''well-known'' else NotOk 500) k = (\<lambda>k. Ok ''well-known'') k"
    by simp
  have e1: "reviewLoop (\<lambda>k. if k < 3 then Ok ''well-known'' else NotOk 500) 0 [] False
       = reviewLoop (\<lambda>k. Ok ''well-known'') 0 [] False"
    using T [THEN conjunct2, THEN conjunct1, THEN spec, THEN mp, OF g] .
  have e2: "\<exists>out. reviewLoop (\<lambda>k. Ok ''well-known'') 0 [] False = LoopDone 3 out False"
    using T [THEN conjunct2, THEN conjunct2, THEN conjunct1, THEN mp, OF h] .
  have e3: "snd (reviewFile (exampleWorld\<lparr>groq := (\<lambda>p k. Ok ''well-known'')\<rparr>)
             \<lparr>path = ''src/app.ts'', ftype = ''blob'', fsize = 1200, url = []\<rparr>
             (initialAccumulators [])) = None"
    using T [THEN conjunct2, THEN conjunct2, THEN conjunct2, THEN mp, OF h'] .
  show ?thesis using c v e1 e2 e3 by (intro conjI)
qed

subsection \<open>The score of a file\<close>















subsection \<open>The file filter\<close>

lemma startsWith_iff: "startsWith s p \<longleftrightarrow> (\<exists>b. s = p @ b)"
  by (induction s p rule: startsWith.induct) auto

lemma endsWith_iff: "endsWith s p \<longleftrightarrow> (\<exists>a. s = a @ p)"
proof -
  have "endsWith s p \<longleftrightarrow> (\<exists>b. rev s = rev p @ b)" by (simp add: endsWith_def startsWith_iff)
  also have "\<dots> \<longleftrightarrow> (\<exists>a. s = a @ p)"
  proof
    assume "\<exists>b. rev s = rev p @ b"
    then obtain b where "rev s = rev p @ b" ..
    then have "s = rev b @ p" by (metis rev_append rev_rev_ident)
    then show "\<exists>a. s = a @ p" ..
  next
    assume "\<exists>a. s = a @ p"
    then obtain a where "s = a @ p" ..
    then have "rev s = rev p @ rev a" by simp
    then show "\<exists>b. rev s = rev p @ b" ..
  qed
  finally show ?thesis .
qed

lemma includesStr_iff: "includesStr s p \<longleftrightarrow> (\<exists>a b. s = a @ p @ b)"
proof (induction s)
  case Nil
  then show ?case by (cases p) simp_all
next
  case (Cons c cs)
  show ?case
  proof
    assume "includesStr (c # cs) p"
    then consider "startsWith (c # cs) p" | "includesStr cs p" by auto
    then show "\<exists>a b. c # cs = a @ p @ b"
    proof cases
      case 1
      then obtain b where "c # cs = p @ b" by (auto simp: startsWith_iff)
      then have "c # cs = [] @ p @ b" by simp
      then show ?thesis by blast
    next
      case 2
      then obtain a b where "cs = a @ p @ b" using Cons by auto
      then have "c # cs = (c # a) @ p @ b" by simp
      then show ?thesis by blast
    qed
  next
    assume "\<exists>a b. c # cs = a @ p @ b"
    then obtain a b where ab: "c # cs = a @ p @ b" by blast
    show "includesStr (c # cs) p"
    proof (cases a)
      case Nil
      then have "startsWith (c # cs) p" using ab by (auto simp: startsWith_iff)
      then show ?thesis by simp
    next
      case (Cons d a')
      then have "cs = a' @ p @ b" using ab by simp
      then have "includesStr cs p" using Cons.IH by blast
      then show ?thesis by simp
    qed
  qed
qed

lemma splitOn_not_Nil: "splitOn sep p \<noteq> []"
  by (induction p) (auto split: list.splits)

lemma splitOn_head:
  "splitOn sep p = l # ls \<Longrightarrow> ls \<noteq> [] \<Longrightarrow> \<exists>b. p = l @ sep # b"
proof (induction p arbitrary: l ls)
  case Nil
  then show ?case by simp
next
  case (Cons c cs)
  show ?case
  proof (cases "c = sep")
    case True
    then show ?thesis using Cons.prems by auto
  next
    case False
    obtain l' ls' where s: "splitOn sep cs = l' # ls'"
      using splitOn_not_Nil [of sep cs] by (cases "splitOn sep cs") auto
    then have "l = c # l'" "ls = ls'" using Cons.prems False by auto
    moreover obtain b where "cs = l' @ sep # b" using Cons.IH [OF s] Cons.prems \<open>ls = ls'\<close> by auto
    ultimately show ?thesis by auto
  qed
qed

lemma directory_segment_in_path:
  "seg \<in> set (butlast (splitOn sep p)) \<Longrightarrow> \<exists>a b. p = a @ seg @ sep # b"
proof (induction p)
  case Nil
  then show ?case by simp
next
  case (Cons c cs)
  obtain l ls where s: "splitOn sep cs = l # ls"
    using splitOn_not_Nil [of sep cs] by (cases "splitOn sep cs") auto
  show ?case
  proof (cases "c = sep")
    case True
    then have "seg = [] \<or> seg \<in> set (butlast (splitOn sep cs))"
      using Cons.prems s by (auto split: if_splits)
    then show ?thesis
    proof
      assume "seg = []"
      then have "c # cs = [] @ seg @ sep # cs" using True by simp
      then show ?thesis by blast
    next
      assume "seg \<in> set (butlast (splitOn sep cs))"
      then obtain a b where "cs = a @ seg @ sep # b" using Cons.IH by blast
      then have "c # cs = (c # a) @ seg @ sep # b" by simp
      then show ?thesis by blast
    qed
  next
    case False
    then have sp: "splitOn sep (c # cs) = (c # l) # ls" using s by simp
    show ?thesis
    proof (cases "ls = []")
      case True
      then show ?thesis using Cons.prems sp by simp
    next
      case ne: False
      then have "seg = c # l \<or> seg \<in> set (butlast ls)" using Cons.prems sp by auto
      then show ?thesis
      proof
        assume seg: "seg = c # l"
        obtain b where "cs = l @ sep # b" using splitOn_head [OF s ne] by blast
        then have "c # cs = [] @ seg @ sep # b" using seg by simp
        then show ?thesis by blast
      next
        assume "seg \<in> set (butlast ls)"
        then have "seg \<in> set (butlast (splitOn sep cs))" using s ne by simp
        then obtain a b where "cs = a @ seg @ sep # b" using Cons.IH by blast
        then have "c # cs = (c # a) @ seg @ sep # b" by simp
        then show ?thesis by blast
      qed
    qed
  qed
qed

lemma splitOn_single: "splitOn sep p = [l] \<Longrightarrow> p = l"
proof (induction p arbitrary: l)
  case Nil
  then show ?case by simp
next
  case (Cons d ds)
  obtain m ms where m: "splitOn sep ds = m # ms"
    using splitOn_not_Nil [of sep ds] by (cases "splitOn sep ds") auto
  then show ?case using Cons by (auto split: if_splits)
qed

lemma last_segment_suffix: "\<exists>a. p = a @ last (splitOn sep p)"
proof (induction p)
  case Nil
  then show ?case by simp
next
  case (Cons c cs)
  obtain l ls where s: "splitOn sep cs = l # ls"
    using splitOn_not_Nil [of sep cs] by (cases "splitOn sep cs") auto
  obtain a where a: "cs = a @ last (splitOn sep cs)" using Cons.IH by blast
  show ?case
  proof (cases "c \<noteq> sep \<and> ls = []")
    case True
    then have "splitOn sep cs = [l]" using s by simp
    then have "cs = l" by (rule splitOn_single)
    moreover have "last (splitOn sep (c # cs)) = c # l" using s True by simp
    ultimately have "c # cs = [] @ last (splitOn sep (c # cs))" by simp
    then show ?thesis by blast
  next
    case False
    then have "last (splitOn sep (c # cs)) = last (splitOn sep cs)" using s by auto
    then have "c # cs = (c # a) @ last (splitOn sep (c # cs))" using a by simp
    then show ?thesis by blast
  qed
qed

lemma excluded_segment:
  assumes "seg \<in> set (directorySegments p)"
    and "seg = ''node_modules'' \<or> seg = ''.git'' \<or> seg = ''dist'' \<or> seg = ''build''"
  shows "excludedPath p"
proof -
  obtain a b where p: "p = a @ seg @ CHR ''/'' # b"
    using assms(1) directory_segment_in_path unfolding directorySegments_def by blast
  from assms(2) show ?thesis
  proof (elim disjE)
    assume "seg = ''node_modules''"
    then have "p = a @ ''node_modules'' @ (CHR ''/'' # b)" using p by simp
    then have "includesStr p ''node_modules''" unfolding includesStr_iff by blast
    then show ?thesis by (simp add: excludedPath_def)
  next
    assume "seg = ''.git''"
    then have "p = a @ ''.git'' @ (CHR ''/'' # b)" using p by simp
    then have "includesStr p ''.git''" unfolding includesStr_iff by blast
    then show ?thesis by (simp add: excludedPath_def)
  next
    assume "seg = ''dist''"
    then have "p = a @ ''dist/'' @ b" using p by simp
    then have "includesStr p ''dist/''" unfolding includesStr_iff by blast
    then show ?thesis by (simp add: excludedPath_def)
  next
    assume "seg = ''build''"
    then have "p = a @ ''build/'' @ b" using p by simp
    then have "includesStr p ''build/''" unfolding includesStr_iff by blast
    then show ?thesis by (simp add: excludedPath_def)
  qed
qed

lemma relevantFile_iff:
  "relevantFile f \<longleftrightarrow> ftype f = ''blob'' \<and> \<not> excludedPath (path f) \<and> fsize f \<le> 100000
     \<and> (hasRelevantExtension f \<or> isConfigFile f)"
  by (auto simp: relevantFile_def)

lemma codeFiles_filter: "codeFiles tree = filter (\<lambda>f. relevantFile f \<and> isCode f) tree"
  by (simp add: codeFiles_def allFiles_def conj_commute)

lemma configFiles_filter: "configFiles tree = filter (\<lambda>f. relevantFile f \<and> isManifest f) tree"
  by (simp add: configFiles_def allFiles_def conj_commute)

lemma classified_relevant:
  assumes "f \<in> set (codeFiles tree) \<union> set (configFiles tree)"
  shows "f \<in> set tree \<and> ftype f = ''blob'' \<and> fsize f \<le> 100000
     \<and> \<not> includesStr (path f) ''node_modules'' \<and> \<not> includesStr (path f) ''.git''
     \<and> \<not> includesStr (path f) ''dist/'' \<and> \<not> includesStr (path f) ''build/''
     \<and> (\<forall>seg \<in> set (directorySegments (path f)).
           seg \<noteq> ''node_modules'' \<and> seg \<noteq> ''.git'' \<and> seg \<noteq> ''dist'' \<and> seg \<noteq> ''build'')"
proof -
  have r: "f \<in> set tree" "relevantFile f"
    using assms by (auto simp: codeFiles_filter configFiles_filter)
  then have e: "\<not> excludedPath (path f)" by (simp add: relevantFile_iff)
  have "\<forall>seg \<in> set (directorySegments (path f)).
           seg \<noteq> ''node_modules'' \<and> seg \<noteq> ''.git'' \<and> seg \<noteq> ''dist'' \<and> seg \<noteq> ''build''"
    using e excluded_segment [of _ "path f"] by blast
  moreover have "\<not> includesStr (path f) ''node_modules''" "\<not> includesStr (path f) ''.git''"
     "\<not> includesStr (path f) ''dist/''" "\<not> includesStr (path f) ''build/''"
    using e by (simp_all add: excludedPath_def)
  moreover have "ftype f = ''blob''" "fsize f \<le> 100000" using r(2) by (simp_all add: relevantFile_iff)
  ultimately show ?thesis using r(1) by (intro conjI)
qed

text \<open>
  C5. Every entry that the filter puts among the code files or among the manifests is
  an entry of the tree of type blob, of size at most 100000, whose path contains none
  of \<^verbatim>\<open>node_modules\<close>, \<^verbatim>\<open>.git\<close>, \<^verbatim>\<open>dist/\<close>, \<^verbatim>\<open>build/\<close>, and so has no directory
  segment of one of these four names. The two lists are filters of the tree by a
  predicate of the single entry: the same tree gives the same lists, and trees with
  the same entries give the same sets of code files and of manifests.
\<close>

theorem classifier_exclusions:
  "(\<forall>f \<in> set (codeFiles tree) \<union> set (configFiles tree).
      f \<in> set tree \<and> ftype f = ''blob'' \<and> fsize f \<le> 100000
      \<and> \<not> includesStr (path f) ''node_modules'' \<and> \<not> includesStr (path f) ''.git''
      \<and> \<not> includesStr (path f) ''dist/'' \<and> \<not> includesStr (path f) ''build/''
      \<and> (\<forall>seg \<in> set (directorySegments (path f)).
            seg \<noteq> ''node_modules'' \<and> seg \<noteq> ''.git'' \<and> seg \<noteq> ''dist'' \<and> seg \<noteq> ''build''))
   \<and> codeFiles tree = filter (\<lambda>f. relevantFile f \<and> isCode f) tree
   \<and> configFiles tree = filter (\<lambda>f. relevantFile f \<and> isManifest f) tree
   \<and> (\<forall>tree'. tree' = tree \<longrightarrow> codeFiles tree' = codeFiles tree \<and> configFiles tree' = configFiles tree)
   \<and> (\<forall>tree'. set tree' = set tree \<longrightarrow> set (codeFiles tree') = set (codeFiles tree)
          \<and> set (configFiles tree') = set (configFiles tree))"
proof -
  have "\<forall>tree'. set tree' = set tree \<longrightarrow> set (codeFiles tree') = set (codeFiles tree)
          \<and> set (configFiles tree') = set (configFiles tree)"
    by (simp add: codeFiles_filter configFiles_filter)
  moreover have "\<forall>tree'. tree' = tree \<longrightarrow> codeFiles tree' = codeFiles tree \<and> configFiles tree' = configFiles tree"
    by simp
  moreover have "\<forall>f \<in> set (codeFiles tree) \<union> set (configFiles tree).
      f \<in> set tree \<and> ftype f = ''blob'' \<and> fsize f \<le> 100000
      \<and> \<not> includesStr (path f) ''node_modules'' \<and> \<not> includesStr (path f) ''.git''
      \<and> \<not> includesStr (path f) ''dist/'' \<and> \<not> includesStr (path f) ''build/''
      \<and> (\<forall>seg \<in> set (directorySegments (path f)).
            seg \<noteq> ''node_modules'' \<and> seg \<noteq> ''.git'' \<and> seg \<noteq> ''dist'' \<and> seg \<noteq> ''build'')"
    using classified_relevant [of _ tree] by (intro ballI)
  ultimately show ?thesis using codeFiles_filter [of tree] configFiles_filter [of tree]
    by (intro conjI)
qed

theorem classifier_exclusions_witness:
  "codeFiles exampleTree = [\<lparr>path = ''src/app.ts'', ftype = ''blob'', fsize = 1200, url = []\<rparr>]
   \<and> configFiles exampleTree = [\<lparr>path = ''package.json'', ftype = ''blob'', fsize = 300, url = []\<rparr>]
   \<and> \<lparr>path = ''node_modules/x/index.js'', ftype = ''blob'', fsize = 50, url = []\<rparr> \<in> set exampleTree
   \<and> directorySegments ''node_modules/x/index.js'' = [''node_modules'', ''x'']
   \<and> \<not> includesStr ''src/app.ts'' ''node_modules'' \<and> directorySegments ''src/app.ts'' = [''src'']"
proof -
  have c: "codeFiles exampleTree = [\<lparr>path = ''src/app.ts'', ftype = ''blob'', fsize = 1200, url = []\<rparr>]"
    by code_simp
  have m: "configFiles exampleTree = [\<lparr>path = ''package.json'', ftype = ''blob'', fsize = 300, url = []\<rparr>]"
    by code_simp
  have d: "directorySegments ''node_modules/x/index.js'' = [''node_modules'', ''x'']"
    "directorySegments ''src/app.ts'' = [''src'']"
    by (simp_all add: directorySegments_def)
  have "\<lparr>path = ''src/app.ts'', ftype = ''blob'', fsize = 1200, url = []\<rparr>
      \<in> set (codeFiles exampleTree) \<union> set (configFiles exampleTree)"
    using c by simp
  then have "\<not> includesStr (path \<lparr>path = ''src/app.ts'', ftype = ''blob'', fsize = 1200, url = []\<rparr>) ''node_modules''"
    using classifier_exclusions [of exampleTree, THEN conjunct1] by blast
  then show ?thesis using c m d by (simp add: exampleTree_def)
qed

subsection \<open>Manifests\<close>

lemma manifest_by_basename:
  assumes "basename (path f) \<in> set manifestNames"
  shows "isManifest f"
proof -
  obtain a where "path f = a @ basename (path f)"
    using last_segment_suffix [of "path f" "CHR ''/''"] unfolding basename_def by blast
  then have "endsWith (path f) (basename (path f))" unfolding endsWith_iff by blast
  then have "list_ex (\<lambda>name. endsWith (path f) name) manifestNames"
    using assms unfolding list_ex_iff by blast
  then show ?thesis by (simp add: isManifest_def)
qed

lemma isManifest_suffix:
  "isManifest f \<longleftrightarrow> (\<exists>x \<in> set (configExtensions @ manifestNames). \<exists>pre. path f = pre @ x)"
  by (auto simp: isManifest_def list_ex_iff endsWith_iff)

text \<open>
  C8, as the code has it. A file of the tree is among the manifests exactly when it
  passes the filter and its path ends with one of the eight configuration extensions
  or with one of the seven manifest names, as a suffix of the path. So a file whose
  final path component is one of the names is a manifest, and so is a file whose
  final component only ends with one, such as \<^verbatim>\<open>foogo.mod\<close>.
\<close>

theorem manifest_suffix_rule:
  "(f \<in> set (configFiles tree) \<longleftrightarrow>
      f \<in> set tree \<and> relevantFile f
      \<and> (\<exists>x \<in> set (configExtensions @ manifestNames). \<exists>pre. path f = pre @ x))
   \<and> (basename (path f) \<in> set manifestNames \<longrightarrow> isManifest f)
   \<and> configExtensions = [''.json'', ''.yml'', ''.yaml'', ''.toml'', ''.xml'', ''.ini'', ''.env'', ''.config'']
   \<and> manifestNames = [''package.json'', ''composer.json'', ''requirements.txt'', ''pom.xml'',
        ''build.gradle'', ''Cargo.toml'', ''go.mod'']"
proof -
  have "f \<in> set (configFiles tree) \<longleftrightarrow>
      f \<in> set tree \<and> relevantFile f
      \<and> (\<exists>x \<in> set (configExtensions @ manifestNames). \<exists>pre. path f = pre @ x)"
    by (simp add: configFiles_filter isManifest_suffix)
  moreover have "basename (path f) \<in> set manifestNames \<longrightarrow> isManifest f"
    using manifest_by_basename [of f] by blast
  ultimately show ?thesis by (simp add: configExtensions_def manifestNames_def)
qed

theorem manifest_suffix_rule_witness:
  "\<lparr>path = ''foogo.mod'', ftype = ''blob'', fsize = 10, url = []\<rparr>
     \<in> set (configFiles [\<lparr>path = ''foogo.mod'', ftype = ''blob'', fsize = 10, url = []\<rparr>])
   \<and> basename ''lib/go.mod'' = ''go.mod''
   \<and> isManifest \<lparr>path = ''lib/go.mod'', ftype = ''blob'', fsize = 10, url = []\<rparr>"
proof -
  have r: "relevantFile \<lparr>path = ''foogo.mod'', ftype = ''blob'', fsize = 10, url = []\<rparr>"
    by code_simp
  have "''foogo.mod'' = ''foo'' @ ''go.mod''" "''go.mod'' \<in> set (configExtensions @ manifestNames)"
    by (simp_all add: manifestNames_def)
  then have e: "\<exists>x \<in> set (configExtensions @ manifestNames). \<exists>pre.
      path \<lparr>path = ''foogo.mod'', ftype = ''blob'', fsize = 10, url = []\<rparr> = pre @ x"
    by (metis GitHubFile.select_convs(1))
  have b: "basename ''lib/go.mod'' = ''go.mod''" by (simp add: basename_def)
  then have "basename (path \<lparr>path = ''lib/go.mod'', ftype = ''blob'', fsize = 10, url = []\<rparr>)
      \<in> set manifestNames"
    by (simp add: manifestNames_def)
  then have "isManifest \<lparr>path = ''lib/go.mod'', ftype = ''blob'', fsize = 10, url = []\<rparr>"
    by (rule manifest_suffix_rule [THEN conjunct2, THEN conjunct1, THEN mp])
  moreover have "\<lparr>path = ''foogo.mod'', ftype = ''blob'', fsize = 10, url = []\<rparr>
     \<in> set (configFiles [\<lparr>path = ''foogo.mod'', ftype = ''blob'', fsize = 10, url = []\<rparr>])"
    using r e manifest_suffix_rule
      [of "\<lparr>path = ''foogo.mod'', ftype = ''blob'', fsize = 10, url = []\<rparr>"
          "[\<lparr>path = ''foogo.mod'', ftype = ''blob'', fsize = 10, url = []\<rparr>]", THEN conjunct1]
    by simp
  ultimately show ?thesis using b by (intro conjI)
qed

text \<open>
  C8, as stated, fails: the file \<^verbatim>\<open>foogo.mod\<close> is among the manifests, although its
  path ends with no configuration extension and its final component is none of the
  manifest names.
\<close>

theorem manifest_basename_counterexample:
  "\<not> (\<lparr>path = ''foogo.mod'', ftype = ''blob'', fsize = 10, url = []\<rparr>
        \<in> set (configFiles [\<lparr>path = ''foogo.mod'', ftype = ''blob'', fsize = 10, url = []\<rparr>])
      \<longleftrightarrow> list_ex (\<lambda>ext. endsWith ''foogo.mod'' ext) configExtensions
          \<or> basename ''foogo.mod'' \<in> set manifestNames)"
proof -
  have "configFiles [\<lparr>path = ''foogo.mod'', ftype = ''blob'', fsize = 10, url = []\<rparr>]
      = [\<lparr>path = ''foogo.mod'', ftype = ''blob'', fsize = 10, url = []\<rparr>]"
    by code_simp
  moreover have "\<not> list_ex (\<lambda>ext. endsWith ''foogo.mod'' ext) configExtensions" by code_simp
  moreover have "basename ''foogo.mod'' = ''foogo.mod''" by (simp add: basename_def)
  moreover have "''foogo.mod'' \<notin> set manifestNames" by (simp add: manifestNames_def)
  ultimately show ?thesis by simp
qed

subsection \<open>What the passes leave unchanged\<close>

text \<open>
  The detection rules change only the three sets. A field that the three additions
  leave alone is left alone by a list of rules built from them; \<open>sel\<close> is any such
  field.
\<close>

lemma applyRules_keeps:
  assumes "\<forall>r \<in> set rules. \<forall>a. sel (snd r a) = sel a"
  shows "sel (applyRules rules a) = sel a"
  using assms unfolding applyRules_def
  by (induction rules arbitrary: a) (auto split: prod.splits)

lemma fold_keeps:
  assumes "\<And>x a. sel (f x a) = sel a"
  shows "sel (fold f xs a) = sel a"
  using assms by (induction xs arbitrary: a) auto

lemma detectFromManifest_keeps:
  assumes "\<And>x a. sel (addFramework x a) = sel a" "\<And>x a. sel (addTool x a) = sel a"
  shows "sel (detectFromManifest w p content a) = sel a"
proof -
  have d: "sel (applyRules (dependencyRules dep) b) = sel b" for dep b
    by (rule applyRules_keeps) (simp add: dependencyRules_def assms)
  have r: "sel (applyRules (requirementRules line) b) = sel b" for line b
    by (rule applyRules_keeps) (simp add: requirementRules_def assms)
  have c: "sel (applyRules [(True, addFramework x), (b1, addFramework y), (b2, addFramework z)] b) = sel b"
    for x y z b1 b2 b
    by (rule applyRules_keeps) (simp add: assms)
  have fd: "sel (fold (\<lambda>dep. applyRules (dependencyRules dep)) deps b) = sel b" for deps b
    by (rule fold_keeps) (rule d)
  have fr: "sel (fold (\<lambda>line. applyRules (requirementRules line)) ls b) = sel b" for ls b
    by (rule fold_keeps) (rule r)
  show ?thesis
    by (simp add: detectFromManifest_def Let_def c fd fr split: option.splits)
qed


lemma processConfigFile_insights [simp]:
  "fileInsights (processConfigFile w f a) = fileInsights a"
  by (simp add: processConfigFile_def Let_def logEvent_def
      detectFromManifest_keeps [where sel = fileInsights] addFramework_def addTool_def
      split: fetched.splits option.splits)

lemma processConfigFile_languages [simp]:
  "languageStats (processConfigFile w f a) = languageStats a"
  by (simp add: processConfigFile_def Let_def logEvent_def
      detectFromManifest_keeps [where sel = languageStats] addFramework_def addTool_def
      split: fetched.splits option.splits)








lemma analyzeFiles_no_code:
  assumes "codeFiles tree = []"
  shows "fileInsights (analyzeFiles w tree evs) = [] \<and> languageStats (analyzeFiles w tree evs) = []"
proof -
  have "batches (codeFiles tree) = []" using assms by (simp add: batches_def batchesFrom_unfold)
  then have "analyzeFiles w tree evs = fold (processConfigFile w) (configFiles tree) (initialAccumulators evs)"
    by (simp add: analyzeFiles_def)
  moreover have "fileInsights (fold (processConfigFile w) fs a) = fileInsights a" for fs a
    by (rule fold_keeps) simp
  moreover have "languageStats (fold (processConfigFile w) fs a) = languageStats a" for fs a
    by (rule fold_keeps) simp
  ultimately show ?thesis by (simp add: initialAccumulators_def)
qed



subsection \<open>The outcomes of the handler\<close>



lemma noFilesFound_stored:
  "updateAnalysis w = Stored u \<Longrightarrow>
   \<exists>r'. row (noFilesFound w r evs) = Some r' \<and> status r' = ''completed'' \<and> stack_score r' = Some 1
         \<and> summary r' = Some ''Repository analyzed but no supported files found.''
         \<and> response (noFilesFound w r evs) =
               \<lparr>statusCode = 200,
                body = [(''success'', JBool True), (''analysisId'', JStr (rowId r)), (''score'', JNum 1),
                        (''filesAnalyzed'', JNum 0)]\<rparr>"
  by (simp add: noFilesFound_def)


lemma completeAnalysis_stored:
  "updateAnalysis w = Stored u \<Longrightarrow>
   \<exists>r'. row (completeAnalysis w r rd a) = Some r' \<and> status r' = ''completed''
         \<and> stack_score r' = Some (runScore a) \<and> summary r' = Some (summaryText (name rd) a)
         \<and> response (completeAnalysis w r rd a) =
               \<lparr>statusCode = 200,
                body = [(''success'', JBool True), (''analysisId'', JStr (rowId r)),
                        (''score'', JNum (runScore a)),
                        (''filesAnalyzed'', JNum (int (length (fileInsights a)))),
                        (''languages'', JNum (int (length (languageStats a)))),
                        (''frameworks'', JNum (int (length (frameworks a)))),
                        (''securityIssues'', JNum (int (length (securityIssues a))))]\<rparr>"
  by (simp add: completeAnalysis_def)




subsection \<open>The row and the calls\<close>




lemma showNat_zero: "showNat 0 = ''0''"
  by code_simp

lemma summaryText_no_insight:
  assumes "fileInsights a = []" "languageStats a = []"
  shows "\<exists>rest. summaryText nm a
     = ''Comprehensive analysis of '' @ nm @ '': Analyzed 0 files across 0 languages. '' @ rest"
  using assms by (simp add: summaryText_def showNat_zero)

lemma runScore_no_insight: "fileInsights a = [] \<Longrightarrow> runScore a = 1"
  by (simp add: runScore_def finalScore_def)

lemma pipeline_reaches_tree:
  assumes "\<not> falsy (authorization w)" "getUser w = Inr (Some uid)" "insertAnalysis w = Stored newId"
    "fetchRepo w = Ok rd" "fetchTree w = Ok tree"
  shows "analyzeRepository w =
     (let r = \<lparr>rowId = newId, user_id = uid, repo_url = repoUrl w, status = ''pending'',
                stack_score = None, summary = None, rowSuggestions = None, tech_stack = None,
                file_insights = None\<rparr>;
          evs = [CallGetUser, CallInsert, FetchRepoInfo, FetchFileTree]
      in if allFiles tree = [] then noFilesFound w r evs
         else completeAnalysis w r rd (analyzeFiles w tree evs))"
  using assms by (simp add: analyzeRepository_def afterInsert_def)

lemma no_code_files_outcome:
  assumes "\<not> falsy (authorization w)" "getUser w = Inr (Some uid)" "insertAnalysis w = Stored newId"
    "fetchRepo w = Ok rd" "fetchTree w = Ok tree" "updateAnalysis w = Stored u" "codeFiles tree = []"
  shows "statusCode (response (analyzeRepository w)) = 200
    \<and> map_of (body (response (analyzeRepository w))) ''success'' = Some (JBool True)
    \<and> map_of (body (response (analyzeRepository w))) ''score'' = Some (JNum 1)
    \<and> (\<exists>r. row (analyzeRepository w) = Some r \<and> status r = ''completed'' \<and> stack_score r = Some 1
          \<and> (\<exists>s. summary r = Some s \<and> s \<noteq> []
                \<and> (allFiles tree = [] \<longrightarrow> s = ''Repository analyzed but no supported files found.'')
                \<and> (allFiles tree \<noteq> [] \<longrightarrow>
                     (\<exists>rest. s = ''Comprehensive analysis of '' @ name rd
                                 @ '': Analyzed 0 files across 0 languages. '' @ rest))))"
proof (cases "allFiles tree = []")
  case True
  define r where "r = \<lparr>rowId = newId, user_id = uid, repo_url = repoUrl w, status = ''pending'',
                stack_score = None, summary = None, rowSuggestions = None, tech_stack = None,
                file_insights = None\<rparr>"
  have eq: "analyzeRepository w = noFilesFound w r [CallGetUser, CallInsert, FetchRepoInfo, FetchFileTree]"
    using pipeline_reaches_tree [OF assms(1-5)] True by (simp add: r_def)
  obtain r' where "row (analyzeRepository w) = Some r'" "status r' = ''completed''"
    "stack_score r' = Some 1" "summary r' = Some ''Repository analyzed but no supported files found.''"
    "response (analyzeRepository w) =
               \<lparr>statusCode = 200,
                body = [(''success'', JBool True), (''analysisId'', JStr (rowId r)), (''score'', JNum 1),
                        (''filesAnalyzed'', JNum 0)]\<rparr>"
    using noFilesFound_stored [OF assms(6), of r "[CallGetUser, CallInsert, FetchRepoInfo, FetchFileTree]"]
    unfolding eq by blast
  then show ?thesis using True by simp
next
  case False
  define r where "r = \<lparr>rowId = newId, user_id = uid, repo_url = repoUrl w, status = ''pending'',
                stack_score = None, summary = None, rowSuggestions = None, tech_stack = None,
                file_insights = None\<rparr>"
  define a where "a = analyzeFiles w tree [CallGetUser, CallInsert, FetchRepoInfo, FetchFileTree]"
  have eq: "analyzeRepository w = completeAnalysis w r rd a"
    using pipeline_reaches_tree [OF assms(1-5)] False by (simp add: r_def a_def)
  have e: "fileInsights a = []" "languageStats a = []"
    using analyzeFiles_no_code [OF assms(7)] by (simp_all add: a_def)
  then have sc: "runScore a = 1" by (simp add: runScore_no_insight)
  obtain rest where rest: "summaryText (name rd) a
     = ''Comprehensive analysis of '' @ name rd @ '': Analyzed 0 files across 0 languages. '' @ rest"
    using summaryText_no_insight [OF e] by blast
  obtain r' where "row (analyzeRepository w) = Some r'" "status r' = ''completed''"
    "stack_score r' = Some (runScore a)" "summary r' = Some (summaryText (name rd) a)"
    "response (analyzeRepository w) =
               \<lparr>statusCode = 200,
                body = [(''success'', JBool True), (''analysisId'', JStr (rowId r)),
                        (''score'', JNum (runScore a)),
                        (''filesAnalyzed'', JNum (int (length (fileInsights a)))),
                        (''languages'', JNum (int (length (languageStats a)))),
                        (''frameworks'', JNum (int (length (frameworks a)))),
                        (''securityIssues'', JNum (int (length (securityIssues a))))]\<rparr>"
    using completeAnalysis_stored [OF assms(6), of r rd a] unfolding eq by blast
  moreover have "summaryText (name rd) a \<noteq> []" using rest by simp
  ultimately show ?thesis using False sc rest by simp
qed

text \<open>
  C6. When the stages that every run needs succeed (the authorization header, the
  user, the insert, the two fetches of the repository and the final update) and no
  file of the tree is a code file, the request answers with status 200 and
  \<^verbatim>\<open>success: true\<close>, and the row ends with status \<^verbatim>\<open>completed\<close>, score 1 and a summary:
  the fixed sentence of the branch without any relevant file, or the generated
  summary, which starts by saying that 0 files in 0 languages were analysed.
\<close>

theorem no_code_files_completes:
  "\<not> falsy (authorization w) \<and> getUser w = Inr (Some uid) \<and> insertAnalysis w = Stored newId
   \<and> fetchRepo w = Ok rd \<and> fetchTree w = Ok tree \<and> updateAnalysis w = Stored u \<and> codeFiles tree = []
   \<longrightarrow>
   statusCode (response (analyzeRepository w)) = 200
    \<and> map_of (body (response (analyzeRepository w))) ''success'' = Some (JBool True)
    \<and> map_of (body (response (analyzeRepository w))) ''score'' = Some (JNum 1)
    \<and> (\<exists>r. row (analyzeRepository w) = Some r \<and> status r = ''completed'' \<and> stack_score r = Some 1
          \<and> (\<exists>s. summary r = Some s \<and> s \<noteq> []
                \<and> (allFiles tree = [] \<longrightarrow> s = ''Repository analyzed but no supported files found.'')
                \<and> (allFiles tree \<noteq> [] \<longrightarrow>
                     (\<exists>rest. s = ''Comprehensive analysis of '' @ name rd
                                 @ '': Analyzed 0 files across 0 languages. '' @ rest))))"
  using no_code_files_outcome [of w uid newId rd tree u] by (intro impI) (elim conjE)

text \<open>
  A repository whose only relevant files are a manifest and a document.
\<close>

theorem no_code_files_completes_witness:
  "codeFiles [\<lparr>path = ''package.json'', ftype = ''blob'', fsize = 300, url = []\<rparr>,
              \<lparr>path = ''README.md'', ftype = ''blob'', fsize = 90, url = []\<rparr>] = []
   \<and> statusCode (response (analyzeRepository (exampleWorld\<lparr>fetchTree :=
        Ok [\<lparr>path = ''package.json'', ftype = ''blob'', fsize = 300, url = []\<rparr>,
            \<lparr>path = ''README.md'', ftype = ''blob'', fsize = 90, url = []\<rparr>]\<rparr>))) = 200
   \<and> (\<exists>r. row (analyzeRepository (exampleWorld\<lparr>fetchTree :=
        Ok [\<lparr>path = ''package.json'', ftype = ''blob'', fsize = 300, url = []\<rparr>,
            \<lparr>path = ''README.md'', ftype = ''blob'', fsize = 90, url = []\<rparr>]\<rparr>)) = Some r
         \<and> status r = ''completed'' \<and> stack_score r = Some 1)"
proof -
  define tree where "tree = [\<lparr>path = ''package.json'', ftype = ''blob'', fsize = 300, url = []\<rparr>,
              \<lparr>path = ''README.md'', ftype = ''blob'', fsize = 90, url = []\<rparr>]"
  have c: "codeFiles tree = []" unfolding tree_def by code_simp
  have h: "\<not> falsy (authorization (exampleWorld\<lparr>fetchTree := Ok tree\<rparr>))
     \<and> getUser (exampleWorld\<lparr>fetchTree := Ok tree\<rparr>) = Inr (Some ''u1'')
     \<and> insertAnalysis (exampleWorld\<lparr>fetchTree := Ok tree\<rparr>) = Stored ''a1''
     \<and> fetchRepo (exampleWorld\<lparr>fetchTree := Ok tree\<rparr>) = Ok \<lparr>name = ''r'', default_branch = ''main''\<rparr>
     \<and> fetchTree (exampleWorld\<lparr>fetchTree := Ok tree\<rparr>) = Ok tree
     \<and> updateAnalysis (exampleWorld\<lparr>fetchTree := Ok tree\<rparr>) = Stored ()
     \<and> codeFiles tree = []"
    using c by (simp add: exampleWorld_def falsy_def)
  note T = no_code_files_completes [THEN mp, OF h]
  show ?thesis using c T unfolding tree_def by blast
qed








subsection \<open>What cleaning deletes\<close>
















subsection \<open>Cleaning around an ordinary character\<close>












subsection \<open>The cleaned text\<close>

lemma removeAsterisks_append [simp]:
  "removeAsterisks (a @ b) = removeAsterisks a @ removeAsterisks b"
  by (simp add: removeAsterisks_def)

lemma removeAsterisks_Cons_other [simp]:
  "y \<noteq> CHR ''*'' \<Longrightarrow> removeAsterisks (y # b) = y # removeAsterisks b"
  by (simp add: removeAsterisks_def)










subsection \<open>Validation\<close>







subsection \<open>What the score counts\<close>





lemma processConfigFile_security [simp]:
  "securityIssues (processConfigFile w f a) = securityIssues a"
  by (simp add: processConfigFile_def Let_def logEvent_def
      detectFromManifest_keeps [where sel = securityIssues] addFramework_def addTool_def
      split: fetched.splits option.splits)
















end
